theory Spec2Isabelle
  imports Main "HOL-Library.Sublist" "HOL-Library.Char_ord" "HOL-Library.List_Lexorder"
begin

section \<open>Python strings and sets\<close>

text \<open>
  A Python \<^verbatim>\<open>str\<close> is a \<^typ>\<open>string\<close>. The development is about ASCII text: the
  character tests below are the ASCII part of Python's \<^verbatim>\<open>str.isspace\<close>,
  \<^verbatim>\<open>str.lower\<close>, \<^verbatim>\<open>str.upper\<close> and of the regular expression class \<^verbatim>\<open>\w\<close>.
\<close>

definition is_space :: "char \<Rightarrow> bool" where
  "is_space c \<longleftrightarrow> c \<in> set [CHR 0x09, CHR 0x0A, CHR 0x0B, CHR 0x0C, CHR 0x0D,
                            CHR 0x1C, CHR 0x1D, CHR 0x1E, CHR 0x1F, CHR '' '']"

definition is_upper :: "char \<Rightarrow> bool" where
  "is_upper c \<longleftrightarrow> CHR ''A'' \<le> c \<and> c \<le> CHR ''Z''"

definition is_lower :: "char \<Rightarrow> bool" where
  "is_lower c \<longleftrightarrow> CHR ''a'' \<le> c \<and> c \<le> CHR ''z''"

definition is_digit :: "char \<Rightarrow> bool" where
  "is_digit c \<longleftrightarrow> CHR ''0'' \<le> c \<and> c \<le> CHR ''9''"

definition lower_char :: "char \<Rightarrow> char" where
  "lower_char c = (if is_upper c then char_of (of_char c + (32::nat)) else c)"

definition upper_char :: "char \<Rightarrow> char" where
  "upper_char c = (if is_lower c then char_of (of_char c - (32::nat)) else c)"

text \<open>\<^verbatim>\<open>s.lower()\<close> and \<^verbatim>\<open>s.upper()\<close>.\<close>

definition py_lower :: "string \<Rightarrow> string" where
  "py_lower s = map lower_char s"

definition py_upper :: "string \<Rightarrow> string" where
  "py_upper s = map upper_char s"

text \<open>\<^verbatim>\<open>s.strip()\<close>, \<^verbatim>\<open>s.lstrip(chars)\<close>, \<^verbatim>\<open>s.rstrip(chars)\<close>.\<close>

definition py_lstrip_chars :: "string \<Rightarrow> string \<Rightarrow> string" where
  "py_lstrip_chars chars s = dropWhile (\<lambda>c. c \<in> set chars) s"

definition py_rstrip_chars :: "string \<Rightarrow> string \<Rightarrow> string" where
  "py_rstrip_chars chars s = rev (dropWhile (\<lambda>c. c \<in> set chars) (rev s))"

definition py_strip :: "string \<Rightarrow> string" where
  "py_strip s = rev (dropWhile is_space (rev (dropWhile is_space s)))"

text \<open>
  \<^verbatim>\<open>s.split()\<close>: the maximal runs of characters that are not white space, in order.
  The first argument is the token being read.
\<close>

fun split_ws :: "string \<Rightarrow> string \<Rightarrow> string list" where
  "split_ws cur [] = (if cur = [] then [] else [cur])"
| "split_ws cur (c # cs) =
     (if is_space c then (if cur = [] then split_ws [] cs else cur # split_ws [] cs)
      else split_ws (cur @ [c]) cs)"

definition py_split :: "string \<Rightarrow> string list" where
  "py_split s = split_ws [] s"

text \<open>
  \<^verbatim>\<open>s.split(sep, 1)\<close> for a one-character separator: the text before the first
  separator and the text after it, or the whole string alone when there is none.
\<close>

fun split_once :: "char \<Rightarrow> string \<Rightarrow> string list" where
  "split_once sep s =
     (if sep \<in> set s then [takeWhile (\<lambda>c. c \<noteq> sep) s, tl (dropWhile (\<lambda>c. c \<noteq> sep) s)]
      else [s])"

text \<open>\<^verbatim>\<open>s.split(sep)\<close> for a one-character separator; the first argument is the field being read.\<close>

fun split_all :: "char \<Rightarrow> string \<Rightarrow> string \<Rightarrow> string list" where
  "split_all sep cur [] = [cur]"
| "split_all sep cur (c # cs) =
     (if c = sep then cur # split_all sep [] cs else split_all sep (cur @ [c]) cs)"

text \<open>\<^verbatim>\<open>sep.join(xs)\<close>.\<close>

fun py_join :: "string \<Rightarrow> string list \<Rightarrow> string" where
  "py_join sep [] = []"
| "py_join sep [x] = x"
| "py_join sep (x # y # ys) = x @ sep @ py_join sep (y # ys)"

text \<open>
  \<^verbatim>\<open>s.replace(old, new)\<close> for a non-empty \<^verbatim>\<open>old\<close>: the occurrences are replaced from
  the left, without overlap. The counter is the number of characters still to skip
  of an occurrence already replaced.
\<close>

fun replace_from :: "string \<Rightarrow> string \<Rightarrow> nat \<Rightarrow> string \<Rightarrow> string" where
  "replace_from old new k [] = []"
| "replace_from old new k (c # cs) =
     (if 0 < k then replace_from old new (k - 1) cs
      else if prefix old (c # cs) then new @ replace_from old new (length old - 1) cs
      else c # replace_from old new 0 cs)"

definition py_replace :: "string \<Rightarrow> string \<Rightarrow> string \<Rightarrow> string" where
  "py_replace old new s = replace_from old new 0 s"

text \<open>
  A Python \<^verbatim>\<open>set\<close> of strings is kept as the list of its elements in the order of
  their first insertion. The order in which Python iterates over the set is not
  fixed by the language (for strings it depends on the hash seed of the process): it
  is a parameter of every function that iterates over a set, a function from the
  inserted elements to the sequence the iteration visits.
\<close>

definition set_add :: "string \<Rightarrow> string list \<Rightarrow> string list" where
  "set_add x s = (if x \<in> set s then s else s @ [x])"

definition py_set :: "string list \<Rightarrow> string list" where
  "py_set xs = fold set_add xs []"

type_synonym iter_order = "string list \<Rightarrow> string list"

definition valid_order :: "iter_order \<Rightarrow> bool" where
  "valid_order ord \<longleftrightarrow> (\<forall>xs. distinct xs \<longrightarrow> distinct (ord xs) \<and> set (ord xs) = set xs)"

section \<open>Regular expressions of Python's \<^verbatim>\<open>re\<close> module\<close>

text \<open>
  The patterns of the source are written with the constructors below. A character
  class is a list of inclusive ranges. Matching is the backtracking search of
  \<^verbatim>\<open>re\<close>: \<open>rmatch\<close> returns every state in which a match of the pattern can
  end, in the order in which the search tries them (a greedy repetition tries one more
  round before it stops), so the match that \<^verbatim>\<open>re\<close> finds is the first of the list. A state is the
  character before the position (none at the start of the text) and the text from the
  position on.
\<close>

datatype regex =
    Cls "(char \<times> char) list"
  | NCls "(char \<times> char) list"
  | Str string
  | Bnd
  | Seq regex regex
  | Star regex
  | Opt regex

type_synonym mstate = "char option \<times> string"

definition in_ranges :: "(char \<times> char) list \<Rightarrow> char \<Rightarrow> bool" where
  "in_ranges rs c \<longleftrightarrow> list_ex (\<lambda>(lo, hi). lo \<le> c \<and> c \<le> hi) rs"

text \<open>With \<^verbatim>\<open>re.IGNORECASE\<close> a character is in a class when one of its cases is.\<close>

definition in_class :: "bool \<Rightarrow> (char \<times> char) list \<Rightarrow> char \<Rightarrow> bool" where
  "in_class icase rs c \<longleftrightarrow>
     in_ranges rs c \<or> (icase \<and> (in_ranges rs (lower_char c) \<or> in_ranges rs (upper_char c)))"

definition same_char :: "bool \<Rightarrow> char \<Rightarrow> char \<Rightarrow> bool" where
  "same_char icase a b \<longleftrightarrow> a = b \<or> (icase \<and> lower_char a = lower_char b)"

definition is_word :: "char \<Rightarrow> bool" where
  "is_word c \<longleftrightarrow> is_upper c \<or> is_lower c \<or> is_digit c \<or> c = CHR ''_''"

text \<open>\<^verbatim>\<open>\b\<close>: exactly one of the two neighbours of the position is a word character.\<close>

definition at_boundary :: "mstate \<Rightarrow> bool" where
  "at_boundary s \<longleftrightarrow>
     (case fst s of None \<Rightarrow> False | Some c \<Rightarrow> is_word c) \<noteq>
     (case snd s of [] \<Rightarrow> False | c # _ \<Rightarrow> is_word c)"

text \<open>
  The rounds of a greedy repetition. The counter bounds the number of rounds by the
  length of the text that is left: a round that consumes nothing ends the repetition.
\<close>

fun many :: "(mstate \<Rightarrow> mstate list) \<Rightarrow> nat \<Rightarrow> mstate \<Rightarrow> mstate list" where
  "many f 0 s = [s]"
| "many f (Suc n) s =
     concat (map (many f n) (filter (\<lambda>s'. length (snd s') < length (snd s)) (f s))) @ [s]"

fun match_str :: "bool \<Rightarrow> string \<Rightarrow> mstate \<Rightarrow> mstate list" where
  "match_str icase [] s = [s]"
| "match_str icase (a # as) (prev, []) = []"
| "match_str icase (a # as) (prev, c # cs) =
     (if same_char icase a c then match_str icase as (Some c, cs) else [])"

primrec rmatch :: "bool \<Rightarrow> regex \<Rightarrow> mstate \<Rightarrow> mstate list" where
  "rmatch icase (Cls rs) s =
     (case snd s of [] \<Rightarrow> []
      | c # cs \<Rightarrow> if in_class icase rs c then [(Some c, cs)] else [])"
| "rmatch icase (NCls rs) s =
     (case snd s of [] \<Rightarrow> []
      | c # cs \<Rightarrow> if in_class icase rs c then [] else [(Some c, cs)])"
| "rmatch icase (Str w) s = match_str icase w s"
| "rmatch icase Bnd s = (if at_boundary s then [s] else [])"
| "rmatch icase (Seq r1 r2) s = concat (map (rmatch icase r2) (rmatch icase r1 s))"
| "rmatch icase (Star r) s = many (rmatch icase r) (length (snd s)) s"
| "rmatch icase (Opt r) s = rmatch icase r s @ [s]"

text \<open>\<^verbatim>\<open>r+\<close> and \<^verbatim>\<open>r{2,}\<close>, and a sequence of patterns.\<close>

definition Plus :: "regex \<Rightarrow> regex" where
  "Plus r = Seq r (Star r)"

definition AtLeast2 :: "regex \<Rightarrow> regex" where
  "AtLeast2 r = Seq r (Seq r (Star r))"

fun seqs :: "regex list \<Rightarrow> regex" where
  "seqs [] = Str []"
| "seqs [r] = r"
| "seqs (r # rs) = Seq r (seqs rs)"

text \<open>
  The scan of \<^verbatim>\<open>finditer\<close>, \<^verbatim>\<open>findall\<close> and \<^verbatim>\<open>sub\<close>: at each position, from the
  left, the pattern is tried; after a match the scan goes on behind it. The counter
  is the number of characters of the last match still to pass. The first function
  returns the matched texts (\<^verbatim>\<open>group(0)\<close> of each match, which is what \<^verbatim>\<open>findall\<close>
  returns for a pattern without groups), the second the text with each match
  replaced. Every pattern of the source consumes at least one character, so no match
  is empty.
\<close>

fun scan_matches :: "bool \<Rightarrow> regex \<Rightarrow> char option \<Rightarrow> nat \<Rightarrow> string \<Rightarrow> string list" where
  "scan_matches icase r prev k [] = []"
| "scan_matches icase r prev k (c # cs) =
     (if 0 < k then scan_matches icase r (Some c) (k - 1) cs
      else case rmatch icase r (prev, c # cs) of
             [] \<Rightarrow> scan_matches icase r (Some c) 0 cs
           | s' # _ \<Rightarrow>
               (let n = length (c # cs) - length (snd s') in
                take n (c # cs) # scan_matches icase r (Some c) (n - 1) cs))"

fun scan_sub :: "bool \<Rightarrow> regex \<Rightarrow> string \<Rightarrow> char option \<Rightarrow> nat \<Rightarrow> string \<Rightarrow> string" where
  "scan_sub icase r repl prev k [] = []"
| "scan_sub icase r repl prev k (c # cs) =
     (if 0 < k then scan_sub icase r repl (Some c) (k - 1) cs
      else case rmatch icase r (prev, c # cs) of
             [] \<Rightarrow> c # scan_sub icase r repl (Some c) 0 cs
           | s' # _ \<Rightarrow>
               (let n = length (c # cs) - length (snd s') in
                repl @ scan_sub icase r repl (Some c) (n - 1) cs))"

definition re_findall :: "bool \<Rightarrow> regex \<Rightarrow> string \<Rightarrow> string list" where
  "re_findall icase r text = scan_matches icase r None 0 text"

definition re_sub :: "bool \<Rightarrow> regex \<Rightarrow> string \<Rightarrow> string \<Rightarrow> string" where
  "re_sub icase r repl text = scan_sub icase r repl None 0 text"

text \<open>The character classes of the source's patterns.\<close>

definition cls_local :: "(char \<times> char) list" where
  "cls_local = [(CHR ''a'', CHR ''z''), (CHR ''A'', CHR ''Z''), (CHR ''0'', CHR ''9''),
                (CHR ''.'', CHR ''.''), (CHR ''_'', CHR ''_''), (CHR ''%'', CHR ''%''),
                (CHR ''+'', CHR ''+''), (CHR ''-'', CHR ''-'')]"

definition cls_host :: "(char \<times> char) list" where
  "cls_host = [(CHR ''a'', CHR ''z''), (CHR ''A'', CHR ''Z''), (CHR ''0'', CHR ''9''),
               (CHR ''.'', CHR ''.''), (CHR ''-'', CHR ''-'')]"

definition cls_label :: "(char \<times> char) list" where
  "cls_label = [(CHR ''a'', CHR ''z''), (CHR ''A'', CHR ''Z''), (CHR ''0'', CHR ''9''),
                (CHR ''-'', CHR ''-'')]"

definition cls_alpha :: "(char \<times> char) list" where
  "cls_alpha = [(CHR ''a'', CHR ''z''), (CHR ''A'', CHR ''Z'')]"

definition cls_space :: "(char \<times> char) list" where
  "cls_space = [(CHR 0x09, CHR 0x0D), (CHR 0x1C, CHR 0x1F), (CHR '' '', CHR '' '')]"

section \<open>The outside world\<close>

text \<open>
  The DNS resolver, the HTTP client and the search provider are parameters. A call
  either raises an exception, given by the name of its class, or returns. The record
  of calls lists the domains asked of the resolver and the URLs requested, in order.
\<close>

datatype exception = Exception string

record response =
  status_code :: int
  content_type :: "string option"
  body :: string

type_synonym dns_capability = "string \<Rightarrow> exception + string list"

type_synonym http_capability = "string \<Rightarrow> exception + response"

type_synonym search_capability = "string \<Rightarrow> exception + string option list"

record calls =
  dns_calls :: "string list"
  http_calls :: "string list"

text \<open>A row read from the input CSV is a dictionary from column names to strings.\<close>

type_synonym csv_row = "string \<rightharpoonup> string"

definition get_or :: "csv_row \<Rightarrow> string \<Rightarrow> string \<Rightarrow> string" where
  "get_or r k dflt = (case r k of None \<Rightarrow> dflt | Some v \<Rightarrow> v)"

section \<open>Name normalisation (both guessing scripts)\<close>

definition LEGAL_SUFFIXES :: "regex list" where
  "LEGAL_SUFFIXES =
     [seqs [Bnd, Str ''PTY'', Bnd], seqs [Bnd, Str ''PTY LTD'', Bnd],
      seqs [Bnd, Str ''LIMITED'', Bnd], seqs [Bnd, Str ''LTD'', Bnd],
      seqs [Bnd, Str ''PROPRIETARY'', Bnd], seqs [Bnd, Str ''PROPRIETARY LIMITED'', Bnd],
      seqs [Bnd, Str ''GROUP'', Bnd], seqs [Bnd, Str ''HOLDING'', Opt (Str ''S''), Bnd],
      seqs [Bnd, Str ''AUSTRALIA'', Bnd]]"

definition normalize_name :: "string \<Rightarrow> string" where
  "normalize_name name =
     (let n0 = py_upper name;
          n1 = fold (\<lambda>suf n. re_sub False suf [] n) LEGAL_SUFFIXES n0;
          n2 = re_sub False (NCls [(CHR ''A'', CHR ''Z''), (CHR ''0'', CHR ''9''),
                                   (CHR '' '', CHR '' '')]) [] n1;
          n3 = py_strip (re_sub False (Plus (Cls cls_space)) '' '' n2)
      in py_lower n3)"

section \<open>Domain guessing, second version (sysiphe\_guess\_emails\_v2.py)\<close>

definition PREFERRED_PREFIXES_AU :: "string list" where
  "PREFERRED_PREFIXES_AU =
     [''enquiries'', ''enquiry'', ''contact'', ''info'', ''hello'', ''sales'', ''support'']"

definition DOMAIN_SUFFIXES_AU :: "string list" where
  "DOMAIN_SUFFIXES_AU = [''.com.au'', ''.net.au'', ''.org.au'', ''.com'']"

definition GENERIC_TOKENS :: "string set" where
  "GENERIC_TOKENS = {''insurance'', ''steel'', ''hardware'', ''investments'', ''finance'',
                     ''solutions'', ''services'', ''group''}"

text \<open>The tokens of a normalised name: \<^verbatim>\<open>[t for t in norm.split() if t]\<close>.\<close>

definition name_tokens :: "string \<Rightarrow> string list" where
  "name_tokens norm = filter (\<lambda>t. t \<noteq> []) (py_split norm)"

text \<open>
  \<^verbatim>\<open>domain_core_candidates\<close>. The cores are collected in a set and returned as
  \<^verbatim>\<open>list(cores)\<close>, that is in the iteration order of the set.
\<close>

definition domain_core_candidates :: "iter_order \<Rightarrow> string \<Rightarrow> string list" where
  "domain_core_candidates ord norm =
     (let tokens = name_tokens norm in
      if tokens = [] then []
      else if length tokens = 1 \<and> hd tokens \<in> GENERIC_TOKENS then []
      else
        let joined = concat tokens;
            dashed = py_join ''-'' tokens;
            cores0 = [];
            cores1 = (if 4 \<le> length joined \<and> length joined \<le> 24
                      then set_add joined cores0 else cores0);
            cores2 = (if 4 \<le> length dashed \<and> length dashed \<le> 28
                      then set_add dashed cores1 else cores1);
            cores3 = (if 2 \<le> length tokens
                      then (let core2 = concat (take 2 tokens) in
                            if 4 \<le> length core2 \<and> length core2 \<le> 18
                            then set_add core2 cores2 else cores2)
                      else cores2)
        in ord cores3)"

text \<open>\<^verbatim>\<open>domain_candidates\<close>: every core with every suffix, core by core.\<close>

definition domain_candidates :: "string list \<Rightarrow> string list" where
  "domain_candidates cores = concat (map (\<lambda>core. map (\<lambda>suf. core @ suf) DOMAIN_SUFFIXES_AU) cores)"

text \<open>
  \<^verbatim>\<open>best_email\<close>: the loop over the preferred prefixes returns inside its body, so
  the loop function gives a result as soon as the list has a first element; the
  line after the loop is the case that the loop ends without returning.
\<close>

fun best_email_loop :: "string list \<Rightarrow> string \<Rightarrow> string option" where
  "best_email_loop [] domain = None"
| "best_email_loop (p # ps) domain = Some (p @ ''@'' @ domain)"

definition best_email :: "string \<Rightarrow> string" where
  "best_email domain =
     (case best_email_loop PREFERRED_PREFIXES_AU domain of
        Some e \<Rightarrow> e
      | None \<Rightarrow> ''info@'' @ domain)"

text \<open>
  \<^verbatim>\<open>mx_hosts\<close>: one query to the resolver; a failure of the resolver is an empty
  list.
\<close>

definition mx_hosts :: "dns_capability \<Rightarrow> string \<Rightarrow> calls \<Rightarrow> string list \<times> calls" where
  "mx_hosts dns domain w =
     (case dns domain of
        Inl e \<Rightarrow> []
      | Inr answers \<Rightarrow> map (\<lambda>r. py_lower (py_rstrip_chars ''.'' r)) answers,
      w\<lparr>dns_calls := dns_calls w @ [domain]\<rparr>)"

definition is_obvious_sink :: "string list \<Rightarrow> bool" where
  "is_obvious_sink mx_list = False"

text \<open>\<^verbatim>\<open>site_responds\<close>: the loop over the two schemes.\<close>

fun site_responds_loop :: "http_capability \<Rightarrow> string list \<Rightarrow> string \<Rightarrow> calls \<Rightarrow> bool \<times> calls" where
  "site_responds_loop http [] domain w = (False, w)"
| "site_responds_loop http (scheme # schemes) domain w =
     (let url = scheme @ domain;
          w' = w\<lparr>http_calls := http_calls w @ [url]\<rparr>
      in case http url of
           Inr r \<Rightarrow> if status_code r < 500 then (True, w')
                    else site_responds_loop http schemes domain w'
         | Inl e \<Rightarrow> site_responds_loop http schemes domain w')"

definition site_responds :: "http_capability \<Rightarrow> string \<Rightarrow> calls \<Rightarrow> bool \<times> calls" where
  "site_responds http domain w = site_responds_loop http [''https://'', ''http://''] domain w"

definition confidence_score :: "string \<Rightarrow> string \<Rightarrow> string list \<Rightarrow> bool \<Rightarrow> int" where
  "confidence_score domain norm_name mx_list site_ok =
     (let score0 = 0;
          score1 = (if mx_list \<noteq> [] then score0 + 40 else score0);
          score2 = (if site_ok then score1 + 30 else score1);
          tokens = py_split norm_name;
          score3 = (if tokens \<noteq> [] then
                      (let core = hd (split_all CHR ''.'' [] domain);
                           s = (if sublist (tokens ! 0) core then score2 + 20 else score2)
                       in if 2 \<le> length tokens \<and> sublist (tokens ! 1) core then s + 10 else s)
                    else score2)
      in min score3 100)"

record guess =
  abn :: string
  legal_name :: string
  display_name :: string
  guessed_domain :: string
  email :: string
  confidence :: int
  site_ok :: string
  mx :: string
  guess_method :: string

text \<open>
  The loop \<^verbatim>\<open>for dom in candidates\<close> of \<^verbatim>\<open>main\<close>. Its state is the best guess so
  far, the counter \<^verbatim>\<open>tested\<close> and the record of calls.
\<close>

fun candidates_loop ::
  "dns_capability \<Rightarrow> http_capability \<Rightarrow> csv_row \<Rightarrow> string \<Rightarrow> string \<Rightarrow> string \<Rightarrow>
   string list \<Rightarrow> guess option \<times> nat \<times> calls \<Rightarrow> guess option \<times> nat \<times> calls" where
  "candidates_loop dns http r legal name norm [] st = st"
| "candidates_loop dns http r legal name norm (d # doms) (best, tested, w) =
     (let tested' = tested + 1;
          (mx_list, w1) = mx_hosts dns d w
      in if mx_list = [] then candidates_loop dns http r legal name norm doms (best, tested', w1)
         else if is_obvious_sink mx_list
         then candidates_loop dns http r legal name norm doms (best, tested', w1)
         else
           (let (ok, w2) = site_responds http d w1;
                score = confidence_score d norm mx_list ok;
                best' = (if (case best of None \<Rightarrow> True | Some b \<Rightarrow> confidence b < score)
                         then Some \<lparr>abn = get_or r ''abn'' [], legal_name = legal,
                                    display_name = name, guessed_domain = d,
                                    email = best_email d, confidence = score,
                                    site_ok = (if ok then ''yes'' else ''no''),
                                    mx = py_join '';'' (take 3 mx_list),
                                    guess_method = ''guess_mx_http''\<rparr>
                         else best)
            in candidates_loop dns http r legal name norm doms (best', tested', w2)))"

record run_v2 =
  results :: "guess list"
  tested :: nat
  kept :: nat
  world :: calls

text \<open>The name \<^verbatim>\<open>main\<close> works with: the business name, or else the legal name.\<close>

definition row_name :: "csv_row \<Rightarrow> string" where
  "row_name r =
     (let legal = py_strip (get_or r ''legal_name'' []);
          business = py_strip (get_or r ''business_name'' [])
      in if business \<noteq> [] then business else legal)"

text \<open>The body of the loop \<^verbatim>\<open>for r in rows\<close> of \<^verbatim>\<open>main\<close>, and the loop.\<close>

definition main_row_v2 ::
  "iter_order \<Rightarrow> dns_capability \<Rightarrow> http_capability \<Rightarrow> csv_row \<Rightarrow> run_v2 \<Rightarrow> run_v2" where
  "main_row_v2 ord dns http r st =
     (let legal = py_strip (get_or r ''legal_name'' []);
          name = row_name r
      in if name = [] then st
         else
           (let norm = normalize_name name;
                cores = domain_core_candidates ord norm
            in if cores = [] then st
               else
                 (let candidates = domain_candidates cores;
                      (best, tested', w') =
                         candidates_loop dns http r legal name norm candidates
                           (None, tested st, world st)
                  in case best of
                       Some b \<Rightarrow> st\<lparr>results := results st @ [b], tested := tested',
                                     kept := kept st + 1, world := w'\<rparr>
                     | None \<Rightarrow> st\<lparr>tested := tested', world := w'\<rparr>)))"

definition main_v2 ::
  "iter_order \<Rightarrow> dns_capability \<Rightarrow> http_capability \<Rightarrow> csv_row list \<Rightarrow> run_v2" where
  "main_v2 ord dns http rows =
     fold (main_row_v2 ord dns http) rows
       \<lparr>results = [], tested = 0, kept = 0, world = \<lparr>dns_calls = [], http_calls = []\<rparr>\<rparr>"

section \<open>Domain guessing, first version (sysiphe\_guess\_emails.py)\<close>

text \<open>
  \<^verbatim>\<open>generate_domain_candidates\<close>: the joined and the dashed name are put in a set
  literal, the loop iterates over that set, and the candidates are collected in a
  second set that is returned as a list.
\<close>

definition generate_domain_candidates :: "iter_order \<Rightarrow> string \<Rightarrow> string list" where
  "generate_domain_candidates ord base =
     (let tokens = py_split base;
          joined = concat tokens;
          dashed = py_join ''-'' tokens;
          candidates =
            fold (\<lambda>core cands.
                    if 4 \<le> length core
                    then fold (\<lambda>suf cs. set_add (core @ suf) cs) DOMAIN_SUFFIXES_AU cands
                    else cands)
                 (ord (py_set [joined, dashed])) []
      in ord candidates)"

definition has_mx :: "dns_capability \<Rightarrow> string \<Rightarrow> calls \<Rightarrow> bool \<times> calls" where
  "has_mx dns domain w =
     (case dns domain of Inl e \<Rightarrow> False | Inr answers \<Rightarrow> 0 < length answers,
      w\<lparr>dns_calls := dns_calls w @ [domain]\<rparr>)"

definition EMAIL_PREFIXES_AU :: "string list" where
  "EMAIL_PREFIXES_AU =
     [''info'', ''contact'', ''hello'', ''enquiries'', ''enquiry'', ''sales'', ''support'',
      ''admin'']"

definition generate_emails :: "string \<Rightarrow> string list" where
  "generate_emails domain = map (\<lambda>p. p @ ''@'' @ domain) EMAIL_PREFIXES_AU"

record guess_v1 =
  v1_abn :: string
  v1_legal_name :: string
  v1_guessed_domain :: string
  v1_email :: string
  v1_method :: string

text \<open>
  The loop \<^verbatim>\<open>for dom in domains\<close> of the first version's \<^verbatim>\<open>main\<close>: it ends with
  \<^verbatim>\<open>break\<close> at the first domain with a mail exchanger.
\<close>

fun domains_loop ::
  "dns_capability \<Rightarrow> csv_row \<Rightarrow> string \<Rightarrow> string list \<Rightarrow> guess_v1 list \<times> calls \<Rightarrow>
   guess_v1 list \<times> calls" where
  "domains_loop dns r legal [] st = st"
| "domains_loop dns r legal (d # ds) (res, w) =
     (let (found, w1) = has_mx dns d w
      in if found
         then (res @ map (\<lambda>e. \<lparr>v1_abn = get_or r ''abn'' [], v1_legal_name = legal,
                                 v1_guessed_domain = d, v1_email = e,
                                 v1_method = ''guess_mx''\<rparr>) (generate_emails d), w1)
         else domains_loop dns r legal ds (res, w1))"

definition main_row_v1 ::
  "iter_order \<Rightarrow> dns_capability \<Rightarrow> csv_row \<Rightarrow> guess_v1 list \<times> calls \<Rightarrow> guess_v1 list \<times> calls" where
  "main_row_v1 ord dns r st =
     (let legal = (if get_or r ''legal_name'' [] \<noteq> [] then get_or r ''legal_name'' []
                   else get_or r ''business_name'' [])
      in if py_strip legal = [] then st
         else domains_loop dns r legal
                (generate_domain_candidates ord (normalize_name legal)) st)"

definition main_v1 :: "iter_order \<Rightarrow> dns_capability \<Rightarrow> csv_row list \<Rightarrow> guess_v1 list \<times> calls" where
  "main_v1 ord dns rows =
     fold (main_row_v1 ord dns) rows ([], \<lparr>dns_calls = [], http_calls = []\<rparr>)"

section \<open>Extraction of addresses from a fetched page\<close>

text \<open>
  \<^verbatim>\<open>sysiphe_guess_verify_email.py\<close>:
  \<^verbatim>\<open>\b[a-zA-Z0-9._%+-]+@([a-zA-Z0-9-]+\.)+[a-zA-Z]{2,}\b\<close>.
\<close>

definition EMAIL_RE_verify :: regex where
  "EMAIL_RE_verify =
     seqs [Bnd, Plus (Cls cls_local), Str ''@'', Plus (Seq (Plus (Cls cls_label)) (Str ''.'')),
           AtLeast2 (Cls cls_alpha), Bnd]"

definition BAD_EMAIL_HINTS_verify :: "string list" where
  "BAD_EMAIL_HINTS_verify =
     [''example.com'', ''yourcompany.com'', ''email.com'', ''test.com'', ''domain.com'']"

definition extract_emails_verify :: "iter_order \<Rightarrow> string \<Rightarrow> string list" where
  "extract_emails_verify ord text =
     (let emails = py_set (map py_lower (re_findall False EMAIL_RE_verify text));
          out = filter (\<lambda>e. \<not> list_ex (\<lambda>bad. sublist bad e) BAD_EMAIL_HINTS_verify) (ord emails)
      in sort out)"

text \<open>
  \<^verbatim>\<open>sysiphe_scrape_emails_from_sites.py\<close>:
  \<^verbatim>\<open>\b[a-zA-Z0-9._%+-]+@[a-zA-Z0-9.-]+\.[a-zA-Z]{2,}\b\<close>.
\<close>

definition EMAIL_RE_scrape :: regex where
  "EMAIL_RE_scrape =
     seqs [Bnd, Plus (Cls cls_local), Str ''@'', Plus (Cls cls_host), Str ''.'',
           AtLeast2 (Cls cls_alpha), Bnd]"

definition BAD_EMAIL_HINTS_scrape :: "string list" where
  "BAD_EMAIL_HINTS_scrape = [''example.com'', ''yourcompany.com'', ''email.com'']"

definition extract_emails_scrape :: "iter_order \<Rightarrow> string \<Rightarrow> string list" where
  "extract_emails_scrape ord html =
     (let emails = py_set (map py_lower (re_findall False EMAIL_RE_scrape html));
          clean = filter (\<lambda>e. \<not> list_ex (\<lambda>bad. sublist bad e) BAD_EMAIL_HINTS_scrape) (ord emails)
      in sort clean)"

section \<open>Search fallback (sysiphe\_search\_email.py)\<close>

text \<open>
  \<^verbatim>\<open>\b[A-Z0-9._%+-]+@[A-Z0-9.-]+\.[A-Z]{2,}\b\<close>, compiled with \<^verbatim>\<open>re.IGNORECASE\<close>.
\<close>

definition EMAIL_RE_search :: regex where
  "EMAIL_RE_search =
     seqs [Bnd,
           Plus (Cls [(CHR ''A'', CHR ''Z''), (CHR ''0'', CHR ''9''), (CHR ''.'', CHR ''.''),
                      (CHR ''_'', CHR ''_''), (CHR ''%'', CHR ''%''), (CHR ''+'', CHR ''+''),
                      (CHR ''-'', CHR ''-'')]),
           Str ''@'',
           Plus (Cls [(CHR ''A'', CHR ''Z''), (CHR ''0'', CHR ''9''), (CHR ''.'', CHR ''.''),
                      (CHR ''-'', CHR ''-'')]),
           Str ''.'',
           AtLeast2 (Cls [(CHR ''A'', CHR ''Z'')]), Bnd]"

definition LOCALPART_PRIORITY :: "string list" where
  "LOCALPART_PRIORITY =
     [''contact'', ''hello'', ''info'', ''support'', ''sales'', ''admin'', ''enquiries'',
      ''enquiry'', ''privacy'']"

record FoundEmail =
  fe_email :: string
  fe_source_url :: string
  fe_confidence :: int
  fe_reason :: string

definition normalize_email :: "string \<Rightarrow> string" where
  "normalize_email e = py_lower (py_strip e)"

definition domain_from_email :: "string \<Rightarrow> string" where
  "domain_from_email e =
     (let parts = split_once CHR ''@'' e
      in if length parts = 2 then py_strip (py_lower (parts ! 1)) else [])"

definition free_providers :: "string set" where
  "free_providers =
     {''gmail.com'', ''googlemail.com'', ''outlook.com'', ''hotmail.com'', ''live.com'',
      ''yahoo.com'', ''yahoo.com.au'', ''icloud.com'', ''aol.com'', ''proton.me'',
      ''protonmail.com''}"

text \<open>
  The loop over \<^verbatim>\<open>enumerate(LOCALPART_PRIORITY)\<close>: the first entry equal to the
  local part adds its bonus and its tag, and the loop ends.
\<close>

fun localpart_loop :: "string \<Rightarrow> nat \<Rightarrow> string list \<Rightarrow> int \<times> string list \<Rightarrow> int \<times> string list" where
  "localpart_loop localpart i [] sr = sr"
| "localpart_loop localpart i (lp # lps) (score, reason) =
     (if localpart = lp
      then (score + max 0 (25 - int i * 3), reason @ [''lp='' @ lp])
      else localpart_loop localpart (i + 1) lps (score, reason))"

text \<open>The expected domain, cleaned as \<^verbatim>\<open>score_email\<close> cleans it.\<close>

definition clean_expected :: "string \<Rightarrow> string" where
  "clean_expected expected_domain =
     (let exp0 = py_strip (py_lower expected_domain);
          exp1 = hd (split_once CHR ''/''
                       (py_replace ''https://'' [] (py_replace ''http://'' [] exp0)))
      in py_lstrip_chars ''www.'' exp1)"

text \<open>
  The steps of \<^verbatim>\<open>score_email\<close> on the score and the list of reasons: the penalty
  for a free provider, and the comparison with the expected domain when there is one.
\<close>

fun free_step :: "string \<Rightarrow> int \<times> string list \<Rightarrow> int \<times> string list" where
  "free_step dm (score, reason) =
     (if dm \<in> free_providers then (score - 35, reason @ [''free_provider''])
      else (score, reason))"

fun expected_step :: "string \<Rightarrow> string option \<Rightarrow> int \<times> string list \<Rightarrow> int \<times> string list" where
  "expected_step dm None (score, reason) = (score, reason)"
| "expected_step dm (Some ed) (score, reason) =
     (if ed = [] then (score, reason)
      else
        (let exp = clean_expected ed
         in if dm = exp then (score + 35, reason @ [''domain_match''])
            else if suffix (''.'' @ exp) dm then (score + 20, reason @ [''subdomain_match''])
            else (score - 10, reason @ [''domain_mismatch''])))"

definition score_email :: "string \<Rightarrow> string option \<Rightarrow> int \<times> string" where
  "score_email em expected_domain =
     (let e = normalize_email em;
          dm = domain_from_email e;
          localpart = hd (split_once CHR ''@'' e);
          sr = localpart_loop localpart 0 LOCALPART_PRIORITY
                 (expected_step dm expected_domain (free_step dm (50, [])));
          score = max 0 (min 100 (fst sr))
      in (score, if snd sr \<noteq> [] then py_join '','' (snd sr) else ''generic''))"

text \<open>\<^verbatim>\<open>pick_best_email\<close>: the loop over the set of addresses, in its iteration order.\<close>

fun pick_loop :: "string list \<Rightarrow> string option \<Rightarrow> string \<Rightarrow> FoundEmail option \<Rightarrow> FoundEmail option" where
  "pick_loop [] expected_domain source_url best = best"
| "pick_loop (em # ems) expected_domain source_url best =
     (let (s, why) = score_email em expected_domain
      in pick_loop ems expected_domain source_url
           (if (case best of None \<Rightarrow> True | Some b \<Rightarrow> fe_confidence b < s)
            then Some \<lparr>fe_email = normalize_email em, fe_source_url = source_url,
                       fe_confidence = s, fe_reason = why\<rparr>
            else best))"

definition pick_best_email ::
  "iter_order \<Rightarrow> string list \<Rightarrow> string option \<Rightarrow> string \<Rightarrow> FoundEmail option" where
  "pick_best_email ord emails expected_domain source_url =
     pick_loop (ord emails) expected_domain source_url None"

text \<open>
  \<^verbatim>\<open>search_serpapi\<close>: the request, \<^verbatim>\<open>raise_for_status\<close> and the decoding of the
  answer are the search capability, which raises or returns the \<^verbatim>\<open>link\<close> field of each
  organic result (none when the result has no link).
\<close>

definition search_serpapi :: "search_capability \<Rightarrow> string \<Rightarrow> nat \<Rightarrow> exception + string list" where
  "search_serpapi search query num =
     (case search query of
        Inl e \<Rightarrow> Inl e
      | Inr items \<Rightarrow>
          Inr (List.map_filter
                 (\<lambda>link. case link of None \<Rightarrow> None
                          | Some u \<Rightarrow> if u \<noteq> [] then Some u else None)
                 (take num items)))"

definition fetch_page :: "http_capability \<Rightarrow> string \<Rightarrow> string option" where
  "fetch_page http url =
     (case http url of
        Inl e \<Rightarrow> None
      | Inr r \<Rightarrow>
          if 400 \<le> status_code r then None
          else
            (let ctype = py_lower (case content_type r of None \<Rightarrow> [] | Some c \<Rightarrow> c)
             in if \<not> sublist ''text/html'' ctype \<and> \<not> sublist ''text/plain'' ctype then None
                else Some (body r)))"

definition extract_emails_from_text :: "string \<Rightarrow> string list" where
  "extract_emails_from_text text = py_set (re_findall True EMAIL_RE_search text)"

definition build_query :: "string \<Rightarrow> string \<Rightarrow> string \<Rightarrow> string" where
  "build_query legal state postcode =
     (let name = py_strip legal;
          extra = py_join '' '' (map py_strip
                    (filter (\<lambda>x. x \<noteq> [] \<and> py_strip x \<noteq> []) [state, postcode]))
      in if extra \<noteq> [] then [CHR 0x22] @ name @ [CHR 0x22] @ '' '' @ extra @ '' contact email''
         else [CHR 0x22] @ name @ [CHR 0x22] @ '' contact email'')"

record out_row =
  out_abn :: string
  out_legal_name :: string
  out_email :: string
  out_confidence :: int
  out_source_url :: string
  out_reason :: string
  out_query :: string

record args =
  links :: int
  expected_domain_field :: string

text \<open>
  The loop \<^verbatim>\<open>for url in urls\<close> of \<^verbatim>\<open>main\<close>; its state is the best address so far
  and the number of pages fetched.
\<close>

fun urls_loop ::
  "iter_order \<Rightarrow> http_capability \<Rightarrow> int \<Rightarrow> string option \<Rightarrow> string list \<Rightarrow>
   FoundEmail option \<times> int \<Rightarrow> FoundEmail option" where
  "urls_loop ord http lnks expected [] (best, fetched) = best"
| "urls_loop ord http lnks expected (url # urls) (best, fetched) =
     (if lnks \<le> fetched then best
      else
        (let fetched' = fetched + 1
         in case fetch_page http url of
              None \<Rightarrow> urls_loop ord http lnks expected urls (best, fetched')
            | Some html \<Rightarrow>
                if html = [] then urls_loop ord http lnks expected urls (best, fetched')
                else
                  (let emails = extract_emails_from_text html
                   in if emails = [] then urls_loop ord http lnks expected urls (best, fetched')
                      else
                        (let candidate = pick_best_email ord emails expected url;
                             best' = (case candidate of
                                        None \<Rightarrow> best
                                      | Some c \<Rightarrow>
                                          if (case best of None \<Rightarrow> True
                                              | Some b \<Rightarrow> fe_confidence b < fe_confidence c)
                                          then candidate else best)
                         in if (case best' of None \<Rightarrow> False | Some b \<Rightarrow> 85 \<le> fe_confidence b)
                            then best'
                            else urls_loop ord http lnks expected urls (best', fetched')))))"

text \<open>
  The body of the loop \<^verbatim>\<open>for row in rows\<close> of \<^verbatim>\<open>main\<close>: the outcome appended to
  \<^verbatim>\<open>results\<close> for one row. The \<^verbatim>\<open>try\<close> around the search is the case distinction on
  what the search returns.
\<close>

definition search_row ::
  "iter_order \<Rightarrow> search_capability \<Rightarrow> http_capability \<Rightarrow> args \<Rightarrow> csv_row \<Rightarrow> out_row" where
  "search_row ord search http a row =
     (let abn' = py_strip (get_or row ''abn'' []);
          legal = py_strip (if get_or row ''legal_name'' [] \<noteq> [] then get_or row ''legal_name'' []
                            else get_or row ''business_name'' []);
          state = py_strip (get_or row ''main_state'' []);
          postcode = py_strip (get_or row ''main_postcode'' []);
          expected = (if expected_domain_field a \<noteq> []
                      then (let v = py_strip (get_or row (expected_domain_field a) [])
                            in if v \<noteq> [] then Some v else None)
                      else None)
      in if legal = []
         then \<lparr>out_abn = abn', out_legal_name = [], out_email = [], out_confidence = 0,
               out_source_url = [], out_reason = ''missing_legal_name'', out_query = []\<rparr>
         else
           (let query = build_query legal state postcode
            in case search_serpapi search query (nat (max 5 (links a))) of
                 Inl (Exception type_name) \<Rightarrow>
                   \<lparr>out_abn = abn', out_legal_name = legal, out_email = [], out_confidence = 0,
                     out_source_url = [], out_reason = ''search_error:'' @ type_name,
                     out_query = query\<rparr>
               | Inr urls \<Rightarrow>
                   (case urls_loop ord http (links a) expected urls (None, 0) of
                      Some b \<Rightarrow>
                        \<lparr>out_abn = abn', out_legal_name = legal, out_email = fe_email b,
                          out_confidence = fe_confidence b, out_source_url = fe_source_url b,
                          out_reason = fe_reason b, out_query = query\<rparr>
                    | None \<Rightarrow>
                        \<lparr>out_abn = abn', out_legal_name = legal, out_email = [],
                          out_confidence = 0, out_source_url = [], out_reason = ''not_found'',
                          out_query = query\<rparr>)))"

text \<open>The loop over the rows: one outcome is appended to \<^verbatim>\<open>results\<close> for each row.\<close>

definition main_search ::
  "iter_order \<Rightarrow> search_capability \<Rightarrow> http_capability \<Rightarrow> args \<Rightarrow> csv_row list \<Rightarrow> out_row list" where
  "main_search ord search http a rows =
     fold (\<lambda>row results. results @ [search_row ord search http a row]) rows []"

text \<open>The legal name and the query that \<^verbatim>\<open>main\<close> computes for a row.\<close>

definition row_legal_name :: "csv_row \<Rightarrow> string" where
  "row_legal_name row =
     py_strip (if get_or row ''legal_name'' [] \<noteq> [] then get_or row ''legal_name'' []
               else get_or row ''business_name'' [])"

definition row_query :: "csv_row \<Rightarrow> string" where
  "row_query row =
     build_query (row_legal_name row) (py_strip (get_or row ''main_state'' []))
       (py_strip (get_or row ''main_postcode'' []))"

text \<open>
  What the resolver and the site probe answer for a domain. The answers do not depend
  on the calls made before; the two functions below read them off with an empty record
  of calls.
\<close>

definition mx_answer :: "dns_capability \<Rightarrow> string \<Rightarrow> string list" where
  "mx_answer dns domain = fst (mx_hosts dns domain \<lparr>dns_calls = [], http_calls = []\<rparr>)"

definition site_answer :: "http_capability \<Rightarrow> string \<Rightarrow> bool" where
  "site_answer http domain = fst (site_responds http domain \<lparr>dns_calls = [], http_calls = []\<rparr>)"

section \<open>Properties of the domain generators\<close>

lemma set_add_distinct: "distinct s \<Longrightarrow> distinct (set_add x s)"
  by (simp add: set_add_def)

lemma set_set_add: "set (set_add x s) = insert x (set s)"
  by (auto simp: set_add_def)

text \<open>
  C10: for every domain, \<^verbatim>\<open>best_email\<close> returns the first preferred prefix,
  \<^verbatim>\<open>enquiries\<close>, followed by \<^verbatim>\<open>@\<close> and the domain; the loop returns in its first
  iteration, so the \<^verbatim>\<open>info@\<close> line after the loop is never reached.
\<close>

theorem best_email_enquiries:
  "best_email d = ''enquiries@'' @ d \<and>
   best_email_loop PREFERRED_PREFIXES_AU d = Some (hd PREFERRED_PREFIXES_AU @ ''@'' @ d) \<and>
   best_email_loop PREFERRED_PREFIXES_AU d \<noteq> None"
  by (simp add: best_email_def PREFERRED_PREFIXES_AU_def)

lemma valid_order_set: "valid_order ord \<Longrightarrow> distinct xs \<Longrightarrow> set (ord xs) = set xs"
  by (simp add: valid_order_def)

lemma valid_order_distinct: "valid_order ord \<Longrightarrow> distinct xs \<Longrightarrow> distinct (ord xs)"
  by (simp add: valid_order_def)

lemma valid_order_id: "valid_order (\<lambda>xs. xs)"
  by (simp add: valid_order_def)

lemma valid_order_rev: "valid_order rev"
  by (simp add: valid_order_def)

lemma distinct_py_set_acc: "distinct acc \<Longrightarrow> distinct (fold set_add xs acc)"
  by (induction xs arbitrary: acc) (simp_all add: set_add_distinct)

lemma set_py_set_acc: "set (fold set_add xs acc) = set acc \<union> set xs"
  by (induction xs arbitrary: acc) (auto simp: set_set_add)

lemma distinct_py_set: "distinct (py_set xs)"
  by (simp add: py_set_def distinct_py_set_acc)

lemma set_py_set: "set (py_set xs) = set xs"
  by (simp add: py_set_def set_py_set_acc)

lemma suffix_inj:
  "s \<in> set DOMAIN_SUFFIXES_AU \<Longrightarrow> s' \<in> set DOMAIN_SUFFIXES_AU \<Longrightarrow> c @ s = c' @ s'
   \<Longrightarrow> c = c' \<and> s = s'"
  unfolding DOMAIN_SUFFIXES_AU_def
  by (auto dest: arg_cong[where f=last])

lemma set_domain_candidates:
  "set (domain_candidates cores) =
     {core @ suf | core suf. core \<in> set cores \<and> suf \<in> set DOMAIN_SUFFIXES_AU}"
  by (auto simp: domain_candidates_def)

lemma distinct_domain_candidates:
  "distinct cores \<Longrightarrow> distinct (domain_candidates cores)"
proof (induction cores)
  case Nil
  show ?case by (simp add: domain_candidates_def)
next
  case (Cons c cs)
  have a: "distinct (map (\<lambda>suf. c @ suf) DOMAIN_SUFFIXES_AU)"
    by (simp add: DOMAIN_SUFFIXES_AU_def)
  have b: "set (map (\<lambda>suf. c @ suf) DOMAIN_SUFFIXES_AU) \<inter> set (domain_candidates cs) = {}"
  proof (rule ccontr)
    assume "\<not> ?thesis"
    then obtain d where d1: "d \<in> set (map (\<lambda>suf. c @ suf) DOMAIN_SUFFIXES_AU)"
      and d2: "d \<in> set (domain_candidates cs)" by blast
    from d1 obtain s where s: "s \<in> set DOMAIN_SUFFIXES_AU" "d = c @ s" by auto
    from d2 obtain c' s' where s': "c' \<in> set cs" "s' \<in> set DOMAIN_SUFFIXES_AU" "d = c' @ s'"
      by (auto simp: set_domain_candidates)
    from s s' have "c = c'" using suffix_inj [of s s' c c'] by simp
    with s'(1) Cons.prems show False by simp
  qed
  have c: "domain_candidates (c # cs) =
             map (\<lambda>suf. c @ suf) DOMAIN_SUFFIXES_AU @ domain_candidates cs"
    by (simp add: domain_candidates_def)
  from Cons a b show ?case unfolding c by simp
qed

text \<open>
  With the insertion order as iteration order, \<open>domain_core_candidates\<close> returns the set
  of cores as it was built; any other order iterates over that set.
\<close>

lemma distinct_inserted_cores: "distinct (domain_core_candidates (\<lambda>xs. xs) norm)"
  by (simp add: domain_core_candidates_def Let_def set_add_distinct)

lemma cores_ord:
  "domain_core_candidates ord norm = ord (domain_core_candidates (\<lambda>xs. xs) norm) \<or>
   (domain_core_candidates (\<lambda>xs. xs) norm = [] \<and> domain_core_candidates ord norm = [])"
  by (simp add: domain_core_candidates_def Let_def)

lemma set_cores:
  assumes "valid_order ord"
  shows "set (domain_core_candidates ord norm) = set (domain_core_candidates (\<lambda>xs. xs) norm)"
proof -
  have s: "set (ord (domain_core_candidates (\<lambda>xs. xs) norm)) =
             set (domain_core_candidates (\<lambda>xs. xs) norm)"
    by (rule valid_order_set [OF assms distinct_inserted_cores])
  from cores_ord [of ord norm] show ?thesis
  proof
    assume "domain_core_candidates ord norm = ord (domain_core_candidates (\<lambda>xs. xs) norm)"
    with s show ?thesis by simp
  next
    assume "domain_core_candidates (\<lambda>xs. xs) norm = [] \<and> domain_core_candidates ord norm = []"
    then show ?thesis by simp
  qed
qed

lemma distinct_cores:
  assumes "valid_order ord"
  shows "distinct (domain_core_candidates ord norm)"
proof -
  have s: "distinct (ord (domain_core_candidates (\<lambda>xs. xs) norm))"
    by (rule valid_order_distinct [OF assms distinct_inserted_cores])
  from cores_ord [of ord norm] show ?thesis
  proof
    assume "domain_core_candidates ord norm = ord (domain_core_candidates (\<lambda>xs. xs) norm)"
    with s show ?thesis by simp
  next
    assume "domain_core_candidates (\<lambda>xs. xs) norm = [] \<and> domain_core_candidates ord norm = []"
    then show ?thesis by simp
  qed
qed

lemma cores_cases:
  assumes "valid_order ord" and "core \<in> set (domain_core_candidates ord norm)"
  shows "(core = concat (name_tokens norm) \<and> 4 \<le> length core \<and> length core \<le> 24) \<or>
         (core = py_join ''-'' (name_tokens norm) \<and> 4 \<le> length core \<and> length core \<le> 28) \<or>
         (2 \<le> length (name_tokens norm) \<and> core = concat (take 2 (name_tokens norm)) \<and>
            4 \<le> length core \<and> length core \<le> 18)"
  using assms(2)
  by (auto simp: domain_core_candidates_def Let_def valid_order_set [OF assms(1)]
      set_set_add set_add_distinct split: if_splits)

lemma tokens_acme_steel_works:
  "name_tokens ''acme steel works'' = [''acme'', ''steel'', ''works'']"
  by (simp add: name_tokens_def py_split_def is_space_def)

lemma tokens_group: "name_tokens ''group'' = [''group'']"
  by (simp add: name_tokens_def py_split_def is_space_def)

text \<open>The candidate loop of the first version, for any set of candidates collected so far.\<close>

lemma set_suffix_fold:
  "set (fold (\<lambda>suf cs. set_add (core @ suf) cs) sufs acc) =
     set acc \<union> {core @ suf | suf. suf \<in> set sufs}"
  by (induction sufs arbitrary: acc) (auto simp: set_set_add)

lemma set_core_fold:
  "set (fold (\<lambda>core cands.
                if 4 \<le> length core
                then fold (\<lambda>suf cs. set_add (core @ suf) cs) DOMAIN_SUFFIXES_AU cands
                else cands) cores acc) =
     set acc \<union> {core @ suf | core suf. core \<in> set cores \<and> 4 \<le> length core \<and>
                                      suf \<in> set DOMAIN_SUFFIXES_AU}"
proof (induction cores arbitrary: acc)
  case Nil
  show ?case by simp
next
  case (Cons c cs)
  show ?case
    by (simp add: Cons.IH set_suffix_fold) blast
qed

lemma distinct_suffix_fold:
  "distinct acc \<Longrightarrow> distinct (fold (\<lambda>suf cs. set_add (core @ suf) cs) sufs acc)"
  by (induction sufs arbitrary: acc) (simp_all add: set_add_distinct)

lemma distinct_core_fold:
  "distinct acc \<Longrightarrow>
   distinct (fold (\<lambda>core cands.
                if 4 \<le> length core
                then fold (\<lambda>suf cs. set_add (core @ suf) cs) DOMAIN_SUFFIXES_AU cands
                else cands) cores acc)"
  by (induction cores arbitrary: acc) (simp_all add: distinct_suffix_fold)

lemma set_generate_domain_candidates:
  assumes "valid_order ord"
  shows "set (generate_domain_candidates ord base) =
           {core @ suf | core suf.
              (core = concat (py_split base) \<or> core = py_join ''-'' (py_split base)) \<and>
              4 \<le> length core \<and> suf \<in> set DOMAIN_SUFFIXES_AU}"
proof -
  have "set (ord (py_set [concat (py_split base), py_join ''-'' (py_split base)])) =
          {concat (py_split base), py_join ''-'' (py_split base)}"
    using valid_order_set [OF assms distinct_py_set] by (simp add: set_py_set)
  then show ?thesis
    unfolding generate_domain_candidates_def Let_def
    by (simp add: valid_order_set [OF assms] distinct_core_fold set_core_fold)
qed

text \<open>
  C9: when the name has no token, or a single token that is one of the generic
  tokens, the generator produces no core and so no candidate domain; the name
  \<^verbatim>\<open>group\<close> is such a name.
\<close>

theorem generator_empty_or_generic:
  "name_tokens norm = [] \<or>
   (length (name_tokens norm) = 1 \<and> hd (name_tokens norm) \<in> GENERIC_TOKENS)
   \<Longrightarrow> domain_core_candidates ord norm = [] \<and>
       domain_candidates (domain_core_candidates ord norm) = []"
  by (auto simp: domain_core_candidates_def domain_candidates_def Let_def)

theorem generator_empty_or_generic_witness:
  "name_tokens ''group'' = [''group''] \<and> ''group'' \<in> GENERIC_TOKENS \<and>
   (\<forall>ord. domain_candidates (domain_core_candidates ord ''group'') = [])"
proof -
  have g: "''group'' \<in> GENERIC_TOKENS" by (simp add: GENERIC_TOKENS_def)
  have "domain_candidates (domain_core_candidates ord ''group'') = []" for ord
    using generator_empty_or_generic [of "''group''" ord] tokens_group g
    by (simp add: domain_candidates_def)
  with tokens_group g show ?thesis by blast
qed

text \<open>
  C3, as the code has it: for every iteration order of the set of cores, the candidate
  list has no duplicate and is the cores, in the order the set is iterated, each with
  the four suffixes in their configured order; two iteration orders give the same
  candidates, possibly in another order of the cores. The code does not put the cores
  of the full name before the two-token core.
\<close>

theorem generator_stable_up_to_order:
  assumes "valid_order ord" and "valid_order ord'"
  shows "distinct (domain_candidates (domain_core_candidates ord norm)) \<and>
         set (domain_candidates (domain_core_candidates ord norm)) =
           set (domain_candidates (domain_core_candidates ord' norm)) \<and>
         length (domain_candidates (domain_core_candidates ord norm)) =
           length (domain_candidates (domain_core_candidates ord' norm)) \<and>
         domain_candidates (domain_core_candidates ord norm) =
           concat (map (\<lambda>core. map (\<lambda>suf. core @ suf)
                                  [''.com.au'', ''.net.au'', ''.org.au'', ''.com''])
                       (domain_core_candidates ord norm))"
proof -
  let ?a = "domain_candidates (domain_core_candidates ord norm)"
  let ?b = "domain_candidates (domain_core_candidates ord' norm)"
  have d: "distinct ?a" "distinct ?b"
    using assms by (simp_all add: distinct_domain_candidates distinct_cores)
  have s: "set ?a = set ?b"
    using assms by (simp add: set_domain_candidates set_cores)
  from d s have l: "length ?a = length ?b"
    by (metis distinct_card)
  have e: "?a = concat (map (\<lambda>core. map (\<lambda>suf. core @ suf)
                                       [''.com.au'', ''.net.au'', ''.org.au'', ''.com''])
                            (domain_core_candidates ord norm))"
    by (simp add: domain_candidates_def DOMAIN_SUFFIXES_AU_def)
  from d s l e show ?thesis by blast
qed

theorem generator_stable_up_to_order_witness:
  "valid_order (\<lambda>xs. xs) \<and> valid_order rev \<and>
   distinct (domain_candidates (domain_core_candidates (\<lambda>xs. xs) ''acme steel works'')) \<and>
   set (domain_candidates (domain_core_candidates (\<lambda>xs. xs) ''acme steel works'')) =
     set (domain_candidates (domain_core_candidates rev ''acme steel works'')) \<and>
   length (domain_candidates (domain_core_candidates (\<lambda>xs. xs) ''acme steel works'')) = 12"
proof -
  have "length (domain_candidates (domain_core_candidates (\<lambda>xs. xs) ''acme steel works'')) = 12"
    by (simp add: tokens_acme_steel_works domain_candidates_def domain_core_candidates_def
        set_add_def DOMAIN_SUFFIXES_AU_def GENERIC_TOKENS_def Let_def)
  with generator_stable_up_to_order [OF valid_order_id valid_order_rev, of "''acme steel works''"]
    valid_order_id valid_order_rev
  show ?thesis by blast
qed

text \<open>
  The claim C3 fails where it orders the cores: under an iteration order that visits
  the set from its last inserted element, the domains of the two-token core
  \<^verbatim>\<open>acmesteel\<close> come before those of the full name, and the list differs from the one
  the insertion order gives.
\<close>

theorem generator_order_counterexample:
  "valid_order rev \<and> valid_order (\<lambda>xs. xs) \<and>
   name_tokens ''acme steel works'' = [''acme'', ''steel'', ''works''] \<and>
   domain_candidates (domain_core_candidates rev ''acme steel works'') =
     [''acmesteel.com.au'', ''acmesteel.net.au'', ''acmesteel.org.au'', ''acmesteel.com'',
      ''acme-steel-works.com.au'', ''acme-steel-works.net.au'', ''acme-steel-works.org.au'',
      ''acme-steel-works.com'', ''acmesteelworks.com.au'', ''acmesteelworks.net.au'',
      ''acmesteelworks.org.au'', ''acmesteelworks.com''] \<and>
   domain_candidates (domain_core_candidates (\<lambda>xs. xs) ''acme steel works'') \<noteq>
     domain_candidates (domain_core_candidates rev ''acme steel works'')"
  by (simp add: valid_order_id valid_order_rev tokens_acme_steel_works domain_candidates_def
      domain_core_candidates_def set_add_def DOMAIN_SUFFIXES_AU_def GENERIC_TOKENS_def Let_def)

text \<open>
  C4, as the code has it. In the second version every candidate is a core followed by
  a suffix, where the core is the joined name with 4 to 24 characters, the dashed name
  with 4 to 28 characters, or the two-token core with 4 to 18 characters; so its length
  is between 4 and 28. In the first version the core is the joined or the dashed name
  and has at least 4 characters; that version has no maximum.
\<close>

theorem core_length_bounds:
  assumes "valid_order ord"
  shows "(\<forall>d \<in> set (domain_candidates (domain_core_candidates ord norm)).
            \<exists>core suf. d = core @ suf \<and> suf \<in> set DOMAIN_SUFFIXES_AU \<and>
              core \<in> set (domain_core_candidates ord norm) \<and>
              4 \<le> length core \<and> length core \<le> 28 \<and>
              ((core = concat (name_tokens norm) \<and> length core \<le> 24) \<or>
               core = py_join ''-'' (name_tokens norm) \<or>
               (2 \<le> length (name_tokens norm) \<and> core = concat (take 2 (name_tokens norm)) \<and>
                length core \<le> 18))) \<and>
         (\<forall>d \<in> set (generate_domain_candidates ord base).
            \<exists>core suf. d = core @ suf \<and> suf \<in> set DOMAIN_SUFFIXES_AU \<and>
              (core = concat (py_split base) \<or> core = py_join ''-'' (py_split base)) \<and>
              4 \<le> length core)"
proof (intro conjI ballI)
  fix d
  assume "d \<in> set (domain_candidates (domain_core_candidates ord norm))"
  then obtain core suf where c: "d = core @ suf" "suf \<in> set DOMAIN_SUFFIXES_AU"
      "core \<in> set (domain_core_candidates ord norm)"
    by (auto simp: set_domain_candidates)
  from cores_cases [OF assms c(3)] c
  show "\<exists>core suf. d = core @ suf \<and> suf \<in> set DOMAIN_SUFFIXES_AU \<and>
              core \<in> set (domain_core_candidates ord norm) \<and>
              4 \<le> length core \<and> length core \<le> 28 \<and>
              ((core = concat (name_tokens norm) \<and> length core \<le> 24) \<or>
               core = py_join ''-'' (name_tokens norm) \<or>
               (2 \<le> length (name_tokens norm) \<and> core = concat (take 2 (name_tokens norm)) \<and>
                length core \<le> 18))"
    by (intro exI [of _ core] exI [of _ suf]) auto
next
  fix d
  assume "d \<in> set (generate_domain_candidates ord base)"
  then show "\<exists>core suf. d = core @ suf \<and> suf \<in> set DOMAIN_SUFFIXES_AU \<and>
              (core = concat (py_split base) \<or> core = py_join ''-'' (py_split base)) \<and>
              4 \<le> length core"
    unfolding set_generate_domain_candidates [OF assms] by blast
qed

theorem core_length_bounds_witness:
  "valid_order (\<lambda>xs. xs) \<and>
   ''acme-steel-works.com'' \<in> set (domain_candidates (domain_core_candidates (\<lambda>xs. xs) ''acme steel works'')) \<and>
   ''acme-steel.com'' \<in> set (generate_domain_candidates (\<lambda>xs. xs) ''acme steel'') \<and>
   (\<exists>core suf. ''acme-steel-works.com'' = core @ suf \<and> suf \<in> set DOMAIN_SUFFIXES_AU \<and>
      4 \<le> length core \<and> length core \<le> 28) \<and>
   (\<exists>core suf. ''acme-steel.com'' = core @ suf \<and> suf \<in> set DOMAIN_SUFFIXES_AU \<and>
      4 \<le> length core)"
proof -
  have a: "''acme-steel-works.com'' \<in>
             set (domain_candidates (domain_core_candidates (\<lambda>xs. xs) ''acme steel works''))"
    by (simp add: tokens_acme_steel_works domain_candidates_def domain_core_candidates_def
        set_add_def DOMAIN_SUFFIXES_AU_def GENERIC_TOKENS_def Let_def)
  have b: "''acme-steel.com'' \<in> set (generate_domain_candidates (\<lambda>xs. xs) ''acme steel'')"
    by (simp add: generate_domain_candidates_def py_split_def is_space_def py_set_def
        set_add_def DOMAIN_SUFFIXES_AU_def Let_def)
  from core_length_bounds [OF valid_order_id, of "''acme steel works''" "''acme steel''"] a b
  have "(\<exists>core suf. ''acme-steel-works.com'' = core @ suf \<and> suf \<in> set DOMAIN_SUFFIXES_AU \<and>
      4 \<le> length core \<and> length core \<le> 28) \<and>
   (\<exists>core suf. ''acme-steel.com'' = core @ suf \<and> suf \<in> set DOMAIN_SUFFIXES_AU \<and>
      4 \<le> length core)"
    by blast
  with a b valid_order_id show ?thesis by blast
qed

text \<open>
  The claim C4 fails for the first version's generator: it has no upper bound, and a
  name whose tokens join to 42 characters gives candidates with cores of 42 and 44
  characters.
\<close>

theorem core_maximum_counterexample:
  "generate_domain_candidates (\<lambda>xs. xs) ''queensland telecommunications infrastructure'' =
     [''queenslandtelecommunicationsinfrastructure.com.au'',
      ''queenslandtelecommunicationsinfrastructure.net.au'',
      ''queenslandtelecommunicationsinfrastructure.org.au'',
      ''queenslandtelecommunicationsinfrastructure.com'',
      ''queensland-telecommunications-infrastructure.com.au'',
      ''queensland-telecommunications-infrastructure.net.au'',
      ''queensland-telecommunications-infrastructure.org.au'',
      ''queensland-telecommunications-infrastructure.com''] \<and>
   length ''queenslandtelecommunicationsinfrastructure'' = 42 \<and>
   length ''queensland-telecommunications-infrastructure'' = 44"
  by (simp add: generate_domain_candidates_def py_split_def is_space_def py_set_def
      set_add_def DOMAIN_SUFFIXES_AU_def Let_def)

section \<open>Properties of the probing loops\<close>

lemma mx_hosts_eq:
  "mx_hosts dns d w = (mx_answer dns d, w\<lparr>dns_calls := dns_calls w @ [d]\<rparr>)"
  by (simp add: mx_hosts_def mx_answer_def)

lemma site_loop_fst:
  "fst (site_responds_loop http ss d w) = fst (site_responds_loop http ss d w')"
  by (induction ss arbitrary: w w') (auto simp: Let_def split: sum.splits)

lemma site_loop_dns: "dns_calls (snd (site_responds_loop http ss d w)) = dns_calls w"
  by (induction ss arbitrary: w) (auto simp: Let_def split: sum.splits)

lemma site_responds_fst: "fst (site_responds http d w) = site_answer http d"
  unfolding site_responds_def site_answer_def by (rule site_loop_fst)

lemma site_responds_dns: "dns_calls (snd (site_responds http d w)) = dns_calls w"
  unfolding site_responds_def by (rule site_loop_dns)

lemma candidates_loop_Cons:
  "candidates_loop dns http r legal name norm (d # ds) (best, t, w) =
     (if mx_answer dns d = []
      then candidates_loop dns http r legal name norm ds
             (best, t + 1, w\<lparr>dns_calls := dns_calls w @ [d]\<rparr>)
      else candidates_loop dns http r legal name norm ds
             (if (case best of None \<Rightarrow> True
                  | Some b \<Rightarrow> confidence b <
                      confidence_score d norm (mx_answer dns d) (site_answer http d))
              then Some \<lparr>abn = get_or r ''abn'' [], legal_name = legal,
                         display_name = name, guessed_domain = d,
                         email = best_email d,
                         confidence = confidence_score d norm (mx_answer dns d) (site_answer http d),
                         site_ok = (if site_answer http d then ''yes'' else ''no''),
                         mx = py_join '';'' (take 3 (mx_answer dns d)),
                         guess_method = ''guess_mx_http''\<rparr>
              else best,
              t + 1,
              snd (site_responds http d (w\<lparr>dns_calls := dns_calls w @ [d]\<rparr>))))"
proof -
  obtain ok w2 where s: "site_responds http d (w\<lparr>dns_calls := dns_calls w @ [d]\<rparr>) = (ok, w2)"
    by (cases "site_responds http d (w\<lparr>dns_calls := dns_calls w @ [d]\<rparr>)")
  have ok: "ok = site_answer http d"
    using site_responds_fst [of http d "w\<lparr>dns_calls := dns_calls w @ [d]\<rparr>"] s by simp
  show ?thesis
    by (simp add: mx_hosts_eq is_obvious_sink_def s ok Let_def)
qed

lemma candidates_loop_calls:
  "candidates_loop dns http r legal name norm ds (best, t, w) = (best', t', w')
   \<Longrightarrow> dns_calls w' = dns_calls w @ ds \<and> t' = t + length ds"
proof (induction ds arbitrary: best t w)
  case Nil
  then show ?case by simp
next
  case (Cons d ds)
  show ?case
  proof (cases "mx_answer dns d = []")
    case True
    with Cons.prems have
      "candidates_loop dns http r legal name norm ds
         (best, t + 1, w\<lparr>dns_calls := dns_calls w @ [d]\<rparr>) = (best', t', w')"
      by (simp add: candidates_loop_Cons del: candidates_loop.simps)
    from Cons.IH [OF this] show ?thesis by simp
  next
    case False
    with Cons.prems obtain b2 where
      "candidates_loop dns http r legal name norm ds
         (b2, t + 1, snd (site_responds http d (w\<lparr>dns_calls := dns_calls w @ [d]\<rparr>)))
       = (best', t', w')"
      by (simp add: candidates_loop_Cons del: candidates_loop.simps)
    from Cons.IH [OF this] show ?thesis by (simp add: site_responds_dns)
  qed
qed

lemmas char_defs = is_space_def is_upper_def is_lower_def is_digit_def lower_char_def
  upper_char_def char_of_def bit_Suc_0_iff is_word_def in_ranges_def in_class_def same_char_def

lemmas re_defs = at_boundary_def Plus_def AtLeast2_def re_findall_def re_sub_def
  cls_local_def cls_host_def cls_label_def cls_alpha_def cls_space_def

lemma normalize_acme_pty_ltd: "normalize_name ''Acme Pty Ltd'' = ''acme''"
  by (simp add: normalize_name_def LEGAL_SUFFIXES_def py_upper_def py_lower_def py_strip_def
      char_defs re_defs Let_def)

lemma normalize_acme_limited: "normalize_name ''ACME LIMITED'' = ''acme''"
  by (simp add: normalize_name_def LEGAL_SUFFIXES_def py_upper_def py_lower_def py_strip_def
      char_defs re_defs Let_def)

lemma candidates_acme:
  "domain_candidates (domain_core_candidates (\<lambda>xs. xs) ''acme'') =
     [''acme.com.au'', ''acme.net.au'', ''acme.org.au'', ''acme.com'']"
  by (simp add: domain_candidates_def domain_core_candidates_def name_tokens_def py_split_def
      is_space_def set_add_def DOMAIN_SUFFIXES_AU_def GENERIC_TOKENS_def Let_def)


text \<open>The candidates \<^verbatim>\<open>main\<close> computes for a row; none when the row has no name.\<close>

lemma main_row_v2_calls:
  "dns_calls (world (main_row_v2 ord dns http r st)) =
     dns_calls (world st) @
       (if row_name r = [] then []
        else domain_candidates (domain_core_candidates ord (normalize_name (row_name r)))) \<and>
   tested (main_row_v2 ord dns http r st) =
     tested st +
       length (if row_name r = [] then []
               else domain_candidates (domain_core_candidates ord (normalize_name (row_name r))))"
proof (cases "row_name r = [] \<or> domain_core_candidates ord (normalize_name (row_name r)) = []")
  case True
  then show ?thesis
    by (auto simp: main_row_v2_def Let_def domain_candidates_def)
next
  case False
  let ?cs = "domain_candidates (domain_core_candidates ord (normalize_name (row_name r)))"
  obtain b t w where l:
    "candidates_loop dns http r (py_strip (get_or r ''legal_name'' [])) (row_name r)
       (normalize_name (row_name r)) ?cs (None, tested st, world st) = (b, t, w)"
    by (cases "candidates_loop dns http r (py_strip (get_or r ''legal_name'' [])) (row_name r)
       (normalize_name (row_name r)) ?cs (None, tested st, world st)") auto
  from candidates_loop_calls [OF l] False l show ?thesis
    by (cases b) (simp_all add: main_row_v2_def Let_def)
qed

lemma main_fold_v2_calls:
  "dns_calls (world (fold (main_row_v2 ord dns http) rows st)) =
     dns_calls (world st) @
       concat (map (\<lambda>r. if row_name r = [] then []
                         else domain_candidates
                                (domain_core_candidates ord (normalize_name (row_name r)))) rows) \<and>
   tested (fold (main_row_v2 ord dns http) rows st) =
     tested st +
       length (concat (map (\<lambda>r. if row_name r = [] then []
                         else domain_candidates
                                (domain_core_candidates ord (normalize_name (row_name r)))) rows))"
proof (induction rows arbitrary: st)
  case Nil
  show ?case by simp
next
  case (Cons r rows)
  show ?case
    using Cons.IH [of "main_row_v2 ord dns http r st"] main_row_v2_calls [of ord dns http r st]
    by simp
qed



text \<open>
  C1, as the code has it: nothing is cached. In a run of the second version's
  \<^verbatim>\<open>main\<close> the resolver is asked once for every candidate of every row, in order: the
  domains asked are the candidate lists of the rows one after the other, a domain that
  is a candidate of two rows is asked twice, and \<^verbatim>\<open>tested\<close> counts the queries.
\<close>

theorem dns_query_per_candidate:
  "dns_calls (world (main_v2 ord dns http rows)) =
     concat (map (\<lambda>r. if row_name r = [] then []
                       else domain_candidates
                              (domain_core_candidates ord (normalize_name (row_name r)))) rows) \<and>
   tested (main_v2 ord dns http rows) = length (dns_calls (world (main_v2 ord dns http rows)))"
  using main_fold_v2_calls
    [of ord dns http rows "\<lparr>results = [], tested = 0, kept = 0,
                             world = \<lparr>dns_calls = [], http_calls = []\<rparr>\<rparr>"]
  by (simp add: main_v2_def)

text \<open>
  The claim C1 fails: two rows whose names both normalise to \<^verbatim>\<open>acme\<close> make the
  resolver answer twice for each of the four candidate domains.
\<close>

theorem no_cache_counterexample:
  "dns_calls (world (main_v2 (\<lambda>xs. xs) (\<lambda>d. Inr [''mail.acme.com.''])
                       (\<lambda>u. Inl (Exception ''ConnectionError''))
                       [[''business_name'' \<mapsto> ''Acme Pty Ltd''],
                        [''legal_name'' \<mapsto> ''ACME LIMITED'']])) =
     [''acme.com.au'', ''acme.net.au'', ''acme.org.au'', ''acme.com'',
      ''acme.com.au'', ''acme.net.au'', ''acme.org.au'', ''acme.com''] \<and>
   count_list (dns_calls (world (main_v2 (\<lambda>xs. xs) (\<lambda>d. Inr [''mail.acme.com.''])
                       (\<lambda>u. Inl (Exception ''ConnectionError''))
                       [[''business_name'' \<mapsto> ''Acme Pty Ltd''],
                        [''legal_name'' \<mapsto> ''ACME LIMITED'']]))) ''acme.com.au'' = 2"
proof -
  have n1: "row_name [''business_name'' \<mapsto> ''Acme Pty Ltd''] = ''Acme Pty Ltd''"
    by (simp add: row_name_def get_or_def py_strip_def is_space_def Let_def)
  have n2: "row_name [''legal_name'' \<mapsto> ''ACME LIMITED''] = ''ACME LIMITED''"
    by (simp add: row_name_def get_or_def py_strip_def is_space_def Let_def)
  have "dns_calls (world (main_v2 (\<lambda>xs. xs) (\<lambda>d. Inr [''mail.acme.com.''])
                       (\<lambda>u. Inl (Exception ''ConnectionError''))
                       [[''business_name'' \<mapsto> ''Acme Pty Ltd''],
                        [''legal_name'' \<mapsto> ''ACME LIMITED'']])) =
     [''acme.com.au'', ''acme.net.au'', ''acme.org.au'', ''acme.com'',
      ''acme.com.au'', ''acme.net.au'', ''acme.org.au'', ''acme.com'']"
    using main_fold_v2_calls
      [of "\<lambda>xs. xs" "\<lambda>d. Inr [''mail.acme.com.'']" "\<lambda>u. Inl (Exception ''ConnectionError'')"
          "[[''business_name'' \<mapsto> ''Acme Pty Ltd''], [''legal_name'' \<mapsto> ''ACME LIMITED'']]"
          "\<lparr>results = [], tested = 0, kept = 0, world = \<lparr>dns_calls = [], http_calls = []\<rparr>\<rparr>"]
    by (simp add: main_v2_def n1 n2 normalize_acme_pty_ltd normalize_acme_limited candidates_acme)
  then show ?thesis by simp
qed




section \<open>Properties of the scorer\<close>

lemma bob_normalized: "normalize_email ''bob@gmail.com'' = ''bob@gmail.com''"
  by (simp add: normalize_email_def py_strip_def py_lower_def char_defs)

lemma bob_domain: "domain_from_email ''bob@gmail.com'' = ''gmail.com''"
  by (simp add: domain_from_email_def py_strip_def py_lower_def char_defs)

lemma bob_localpart: "localpart_loop ''bob'' 0 LOCALPART_PRIORITY sr = sr"
  by (cases sr) (simp add: LOCALPART_PRIORITY_def)

lemma gmail_free: "free_step ''gmail.com'' (50, []) = (15, [''free_provider''])"
  by (simp add: free_providers_def)

lemma expected_step_le: "fst (expected_step dm expected sr) \<le> fst sr + 35"
  by (cases sr; cases expected) (simp_all add: Let_def)

lemma info_normalized: "normalize_email ''info@acme.com.au'' = ''info@acme.com.au''"
  by (simp add: normalize_email_def py_strip_def py_lower_def char_defs)

lemma info_domain: "domain_from_email ''info@acme.com.au'' = ''acme.com.au''"
  by (simp add: domain_from_email_def py_strip_def py_lower_def char_defs)

lemma acme_expected: "clean_expected ''acme.com.au'' = ''acme.com.au''"
  by (simp add: clean_expected_def py_strip_def py_lower_def py_replace_def
      py_lstrip_chars_def char_defs Let_def)

lemma acme_not_free: "free_step ''acme.com.au'' (50, []) = (50, [])"
  by (simp add: free_providers_def)

lemma info_localpart:
  "localpart_loop ''info'' 0 LOCALPART_PRIORITY (85, [''domain_match'']) =
     (104, [''domain_match'', ''lp=info''])"
  by (simp add: LOCALPART_PRIORITY_def)

lemma acme_expected_step:
  "expected_step ''acme.com.au'' (Some ''acme.com.au'') (50, []) = (85, [''domain_match''])"
  by (simp add: acme_expected)

lemma info_score:
  "score_email ''info@acme.com.au'' (Some ''acme.com.au'') = (100, ''domain_match,lp=info'')"
  by (simp add: score_email_def info_normalized info_domain acme_not_free acme_expected_step
      info_localpart Let_def del: free_step.simps expected_step.simps)

lemma clamp_range: "0 \<le> max 0 (min 100 (x::int)) \<and> max 0 (min 100 x) \<le> 100"
  by simp

text \<open>
  C5: the score is an integer between 0 and 100; \<^verbatim>\<open>info@acme.com.au\<close> with the
  expected domain \<^verbatim>\<open>acme.com.au\<close> scores 100, which is at least 85, with the reason
  \<^verbatim>\<open>domain_match,lp=info\<close>; \<^verbatim>\<open>bob@gmail.com\<close> scores 15 without an expected domain
  and at most 50 whatever the expected domain is.
\<close>

theorem score_email_range_and_examples:
  "0 \<le> fst (score_email em expected) \<and> fst (score_email em expected) \<le> 100 \<and>
   score_email ''info@acme.com.au'' (Some ''acme.com.au'') = (100, ''domain_match,lp=info'') \<and>
   85 \<le> fst (score_email ''info@acme.com.au'' (Some ''acme.com.au'')) \<and>
   sublist ''domain_match'' (snd (score_email ''info@acme.com.au'' (Some ''acme.com.au''))) \<and>
   score_email ''bob@gmail.com'' None = (15, ''free_provider'') \<and>
   fst (score_email ''bob@gmail.com'' expected) \<le> 50"
proof -
  have r: "0 \<le> fst (score_email em expected) \<and> fst (score_email em expected) \<le> 100"
    unfolding score_email_def Let_def fst_conv by (rule clamp_range)
  have s: "sublist ''domain_match'' (''domain_match'' @ '',lp=info'')"
    by (rule prefix_imp_sublist) simp
  have n: "score_email ''bob@gmail.com'' None = (15, ''free_provider'')"
    by (simp add: score_email_def bob_normalized bob_domain bob_localpart gmail_free Let_def
        del: free_step.simps)
  have "fst (expected_step ''gmail.com'' expected (15, [''free_provider''])) \<le> 50"
    using expected_step_le [of "''gmail.com''" expected "(15, [''free_provider''])"] by simp
  then have b: "fst (score_email ''bob@gmail.com'' expected) \<le> 50"
    by (simp add: score_email_def bob_normalized bob_domain bob_localpart gmail_free Let_def
        del: free_step.simps expected_step.simps)
  from s have s': "sublist ''domain_match'' ''domain_match,lp=info''" by simp
  from r s' n b show ?thesis by (simp add: info_score)
qed

section \<open>Properties of the extractors\<close>

lemma lower_char_idem: "lower_char (lower_char c) = lower_char c"
  by (simp add: lower_char_def is_upper_def less_eq_char_def)

lemma py_lower_idem: "py_lower (py_lower s) = py_lower s"
  by (simp add: py_lower_def lower_char_idem)

lemma harvest_shape:
  assumes "valid_order ord"
  shows "(\<forall>e \<in> set (sort (filter (\<lambda>e. \<not> list_ex (\<lambda>bad. sublist bad e) hints)
                               (ord (py_set (map py_lower ms))))).
            (\<forall>bad \<in> set hints. \<not> sublist bad e) \<and> py_lower e = e) \<and>
         distinct (sort (filter (\<lambda>e. \<not> list_ex (\<lambda>bad. sublist bad e) hints)
                               (ord (py_set (map py_lower ms))))) \<and>
         sorted (sort (filter (\<lambda>e. \<not> list_ex (\<lambda>bad. sublist bad e) hints)
                               (ord (py_set (map py_lower ms)))))"
proof -
  have s: "set (ord (py_set (map py_lower ms))) = py_lower ` set ms"
    using valid_order_set [OF assms distinct_py_set] by (simp add: set_py_set)
  have d: "distinct (ord (py_set (map py_lower ms)))"
    by (rule valid_order_distinct [OF assms distinct_py_set])
  show ?thesis
    using d by (auto simp: s list_ex_iff py_lower_idem)
qed

text \<open>
  C6: whatever the page contains, neither site harvester returns an address that
  contains one of its configured placeholder markers; every address returned is
  lower-cased, and the list returned is sorted and has no duplicate.
\<close>

theorem harvest_filtered_sorted:
  assumes "valid_order ord"
  shows "(\<forall>e \<in> set (extract_emails_verify ord text).
            (\<forall>bad \<in> set BAD_EMAIL_HINTS_verify. \<not> sublist bad e) \<and> py_lower e = e) \<and>
         distinct (extract_emails_verify ord text) \<and> sorted (extract_emails_verify ord text) \<and>
         (\<forall>e \<in> set (extract_emails_scrape ord text).
            (\<forall>bad \<in> set BAD_EMAIL_HINTS_scrape. \<not> sublist bad e) \<and> py_lower e = e) \<and>
         distinct (extract_emails_scrape ord text) \<and> sorted (extract_emails_scrape ord text)"
  using harvest_shape [OF assms, of BAD_EMAIL_HINTS_verify "re_findall False EMAIL_RE_verify text"]
    harvest_shape [OF assms, of BAD_EMAIL_HINTS_scrape "re_findall False EMAIL_RE_scrape text"]
  unfolding extract_emails_verify_def extract_emails_scrape_def Let_def by blast

lemma findall_page_verify:
  "re_findall False EMAIL_RE_verify ''Info@Example.com zed@acme.com Bob@Acme.com'' =
     [''Info@Example.com'', ''zed@acme.com'', ''Bob@Acme.com'']"
  by (simp add: EMAIL_RE_verify_def char_defs re_defs)

lemma findall_page_scrape:
  "re_findall False EMAIL_RE_scrape ''Info@Example.com zed@acme.com Bob@Acme.com'' =
     [''Info@Example.com'', ''zed@acme.com'', ''Bob@Acme.com'']"
  by (simp add: EMAIL_RE_scrape_def char_defs re_defs)

lemma lower_info: "py_lower ''Info@Example.com'' = ''info@example.com''"
  by (simp add: py_lower_def char_defs)

lemma lower_zed: "py_lower ''zed@acme.com'' = ''zed@acme.com''"
  by (simp add: py_lower_def char_defs)

lemma lower_bob: "py_lower ''Bob@Acme.com'' = ''bob@acme.com''"
  by (simp add: py_lower_def char_defs)

lemma set_page:
  "py_set [''info@example.com'', ''zed@acme.com'', ''bob@acme.com''] =
     [''info@example.com'', ''zed@acme.com'', ''bob@acme.com'']"
  by (simp add: py_set_def set_add_def)

lemma sort_page: "sort [''zed@acme.com'', ''bob@acme.com''] = [''bob@acme.com'', ''zed@acme.com'']"
  by simp

lemma extract_page_verify:
  "extract_emails_verify (\<lambda>xs. xs) ''Info@Example.com zed@acme.com Bob@Acme.com'' =
     [''bob@acme.com'', ''zed@acme.com'']"
  by (simp add: extract_emails_verify_def findall_page_verify lower_info lower_zed lower_bob
      set_page BAD_EMAIL_HINTS_verify_def sublist_code sort_page del: sort_key_simps)

lemma extract_page_scrape:
  "extract_emails_scrape (\<lambda>xs. xs) ''Info@Example.com zed@acme.com Bob@Acme.com'' =
     [''bob@acme.com'', ''zed@acme.com'']"
  by (simp add: extract_emails_scrape_def findall_page_scrape lower_info lower_zed lower_bob
      set_page BAD_EMAIL_HINTS_scrape_def sublist_code sort_page del: sort_key_simps)

theorem harvest_filtered_sorted_witness:
  "valid_order (\<lambda>xs. xs) \<and>
   extract_emails_verify (\<lambda>xs. xs) ''Info@Example.com zed@acme.com Bob@Acme.com'' =
     [''bob@acme.com'', ''zed@acme.com''] \<and>
   extract_emails_scrape (\<lambda>xs. xs) ''Info@Example.com zed@acme.com Bob@Acme.com'' =
     [''bob@acme.com'', ''zed@acme.com''] \<and>
   sorted (extract_emails_verify (\<lambda>xs. xs) ''Info@Example.com zed@acme.com Bob@Acme.com'') \<and>
   distinct (extract_emails_scrape (\<lambda>xs. xs) ''Info@Example.com zed@acme.com Bob@Acme.com'') \<and>
   \<not> sublist ''example.com'' ''bob@acme.com'' \<and> py_lower ''bob@acme.com'' = ''bob@acme.com''"
proof -
  note t = harvest_filtered_sorted [OF valid_order_id,
      of "''Info@Example.com zed@acme.com Bob@Acme.com''"]
  have m: "''example.com'' \<in> set BAD_EMAIL_HINTS_verify"
    by (simp add: BAD_EMAIL_HINTS_verify_def)
  have e: "''bob@acme.com'' \<in>
             set (extract_emails_verify (\<lambda>xs. xs) ''Info@Example.com zed@acme.com Bob@Acme.com'')"
    by (simp add: extract_page_verify)
  from t m e have a: "\<not> sublist ''example.com'' ''bob@acme.com''" by blast
  from t e have b: "py_lower ''bob@acme.com'' = ''bob@acme.com''" by blast
  from t have c: "sorted (extract_emails_verify (\<lambda>xs. xs) ''Info@Example.com zed@acme.com Bob@Acme.com'')"
    by blast
  from t have d: "distinct (extract_emails_scrape (\<lambda>xs. xs) ''Info@Example.com zed@acme.com Bob@Acme.com'')"
    by blast
  from a b c d valid_order_id extract_page_verify extract_page_scrape show ?thesis by blast
qed

section \<open>Properties of the search batch\<close>

lemma fold_append_map: "fold (\<lambda>x acc. acc @ [f x]) xs acc = acc @ map f xs"
  by (induction xs arbitrary: acc) simp_all

lemma main_search_map:
  "main_search ord search http a rows = map (search_row ord search http a) rows"
  by (simp add: main_search_def fold_append_map)

lemma search_row_error:
  assumes "row_legal_name row \<noteq> []" and "search (row_query row) = Inl (Exception type_name)"
  shows "search_row ord search http a row =
           \<lparr>out_abn = py_strip (get_or row ''abn'' []), out_legal_name = row_legal_name row,
             out_email = [], out_confidence = 0, out_source_url = [],
             out_reason = ''search_error:'' @ type_name, out_query = row_query row\<rparr>"
proof -
  have s: "search_serpapi search (row_query row) n = Inl (Exception type_name)" for n
    by (simp add: search_serpapi_def assms(2))
  show ?thesis
    unfolding search_row_def Let_def
    using assms(1) s by (simp add: row_legal_name_def row_query_def)
qed

lemma fetch_page_error: "http url = Inl e \<Longrightarrow> fetch_page http url = None"
  by (simp add: fetch_page_def)

text \<open>
  C8: for every search and HTTP capability, also ones that raise at every call, the
  batch loop ends with exactly one outcome for each row, in the order of the rows,
  each computed from its row alone. For a row with a legal name whose search raises
  an exception, the outcome has no address, confidence 0 and the reason
  \<^verbatim>\<open>search_error:\<close> followed by the name of the exception's class; an exception
  raised by a page request makes \<^verbatim>\<open>fetch_page\<close> return nothing.
\<close>

theorem search_errors_contained:
  "main_search ord search http a rows = map (search_row ord search http a) rows \<and>
   length (main_search ord search http a rows) = length rows \<and>
   (row_legal_name row \<noteq> [] \<and> search (row_query row) = Inl (Exception type_name) \<longrightarrow>
      search_row ord search http a row =
        \<lparr>out_abn = py_strip (get_or row ''abn'' []), out_legal_name = row_legal_name row,
          out_email = [], out_confidence = 0, out_source_url = [],
          out_reason = ''search_error:'' @ type_name, out_query = row_query row\<rparr>) \<and>
   (http url = Inl e \<longrightarrow> fetch_page http url = None)"
  using search_row_error [of row search type_name ord http a] fetch_page_error [of http url e]
  by (simp add: main_search_map)

lemma acme_legal: "row_legal_name [''legal_name'' \<mapsto> ''Acme Pty Ltd''] = ''Acme Pty Ltd''"
  by (simp add: row_legal_name_def get_or_def py_strip_def is_space_def)

lemma acme_query:
  "row_query [''legal_name'' \<mapsto> ''Acme Pty Ltd''] =
     CHR 0x22 # ''Acme Pty Ltd'' @ CHR 0x22 # '' contact email''"
  by (simp add: row_query_def acme_legal build_query_def get_or_def py_strip_def is_space_def)

lemma beta_legal: "row_legal_name [''legal_name'' \<mapsto> ''Beta Ltd''] = ''Beta Ltd''"
  by (simp add: row_legal_name_def get_or_def py_strip_def is_space_def)

lemma beta_query:
  "row_query [''legal_name'' \<mapsto> ''Beta Ltd''] =
     CHR 0x22 # ''Beta Ltd'' @ CHR 0x22 # '' contact email''"
  by (simp add: row_query_def beta_legal build_query_def get_or_def py_strip_def is_space_def)

lemma beta_row:
  "out_reason (search_row ord
      (\<lambda>q. if q = CHR 0x22 # ''Acme Pty Ltd'' @ CHR 0x22 # '' contact email''
            then Inl (Exception ''ConnectionError'') else Inr [])
      http a [''legal_name'' \<mapsto> ''Beta Ltd'']) = ''not_found''"
proof -
  have s: "search_serpapi
      (\<lambda>q. if q = CHR 0x22 # ''Acme Pty Ltd'' @ CHR 0x22 # '' contact email''
            then Inl (Exception ''ConnectionError'') else Inr [])
      (row_query [''legal_name'' \<mapsto> ''Beta Ltd'']) n = Inr []" for n
    by (simp add: search_serpapi_def beta_query List.map_filter_simps)
  have l: "row_legal_name [''legal_name'' \<mapsto> ''Beta Ltd''] \<noteq> []"
    by (simp add: beta_legal)
  show ?thesis
    unfolding search_row_def Let_def
    using s l by (simp add: row_legal_name_def row_query_def)
qed

theorem search_errors_contained_witness:
  "row_legal_name [''legal_name'' \<mapsto> ''Acme Pty Ltd''] \<noteq> [] \<and>
   (\<lambda>q. if q = CHR 0x22 # ''Acme Pty Ltd'' @ CHR 0x22 # '' contact email''
         then Inl (Exception ''ConnectionError'')
         else (Inr [] :: exception + string option list))
     (row_query [''legal_name'' \<mapsto> ''Acme Pty Ltd'']) = Inl (Exception ''ConnectionError'') \<and>
   map out_reason
     (main_search (\<lambda>xs. xs)
        (\<lambda>q. if q = CHR 0x22 # ''Acme Pty Ltd'' @ CHR 0x22 # '' contact email''
              then Inl (Exception ''ConnectionError'') else Inr [])
        (\<lambda>u. Inl (Exception ''Timeout'')) \<lparr>links = 2, expected_domain_field = []\<rparr>
        [[''legal_name'' \<mapsto> ''Acme Pty Ltd''], [''legal_name'' \<mapsto> ''Beta Ltd'']]) =
     [''search_error:ConnectionError'', ''not_found''] \<and>
   fetch_page (\<lambda>u. Inl (Exception ''Timeout'')) ''https://acme.com.au'' = None"
proof -
  let ?search = "\<lambda>q. if q = CHR 0x22 # ''Acme Pty Ltd'' @ CHR 0x22 # '' contact email''
         then Inl (Exception ''ConnectionError'') else (Inr [] :: exception + string option list)"
  let ?http = "\<lambda>u::string. (Inl (Exception ''Timeout'') :: exception + response)"
  let ?a = "\<lparr>links = 2, expected_domain_field = []\<rparr>"
  let ?rows = "[[''legal_name'' \<mapsto> ''Acme Pty Ltd''], [''legal_name'' \<mapsto> ''Beta Ltd'']]"
  have l: "row_legal_name [''legal_name'' \<mapsto> ''Acme Pty Ltd''] \<noteq> []"
    by (simp add: acme_legal)
  have q: "?search (row_query [''legal_name'' \<mapsto> ''Acme Pty Ltd'']) =
             Inl (Exception ''ConnectionError'')"
    by (simp add: acme_query)
  note t = search_errors_contained [where ord = "\<lambda>xs. xs" and search = ?search and http = ?http
      and a = ?a and rows = ?rows and row = "[''legal_name'' \<mapsto> ''Acme Pty Ltd'']"
      and type_name = "''ConnectionError''" and url = "''https://acme.com.au''"
      and e = "Exception ''Timeout''"]
  from t l q have r1: "out_reason (search_row (\<lambda>xs. xs) ?search ?http ?a
                         [''legal_name'' \<mapsto> ''Acme Pty Ltd'']) = ''search_error:ConnectionError''"
    by simp
  from t have f: "fetch_page ?http ''https://acme.com.au'' = None" by simp
  from t have m: "main_search (\<lambda>xs. xs) ?search ?http ?a ?rows =
                    map (search_row (\<lambda>xs. xs) ?search ?http ?a) ?rows" by blast
  have r: "map out_reason (main_search (\<lambda>xs. xs) ?search ?http ?a ?rows) =
          [''search_error:ConnectionError'', ''not_found'']"
    unfolding m using r1 beta_row [of "\<lambda>xs. xs" ?http ?a] by simp
  show ?thesis
    by (rule conjI [OF l conjI [OF q conjI [OF r f]]])
qed

section \<open>The search pattern and the scrape pattern\<close>

lemma of_char_lower:
  "(of_char (lower_char c) :: nat) =
     (if 65 \<le> (of_char c :: nat) \<and> (of_char c :: nat) \<le> 90 then of_char c + 32 else of_char c)"
  by (simp add: lower_char_def is_upper_def less_eq_char_def)

lemma sub_mod: "((of_char c :: nat) - 32) mod 256 = of_char c - 32"
  by (simp add: less_imp_diff_less)

lemma of_char_upper:
  "(of_char (upper_char c) :: nat) =
     (if 97 \<le> (of_char c :: nat) \<and> (of_char c :: nat) \<le> 122 then of_char c - 32 else of_char c)"
  by (simp add: upper_char_def is_lower_def less_eq_char_def sub_mod)

lemma lower_eq_iff:
  "lower_char a = lower_char b \<longleftrightarrow> (of_char (lower_char a) :: nat) = of_char (lower_char b)"
  by simp

lemma char_eq_iff: "a = b \<longleftrightarrow> (of_char a :: nat) = of_char b"
  by simp

lemma cls_icase_alpha:
  "in_class True [(CHR ''A'', CHR ''Z'')] c = in_class False cls_alpha c"
  by (auto simp: in_class_def in_ranges_def cls_alpha_def less_eq_char_def
      of_char_lower of_char_upper)

lemma cls_icase_host:
  "in_class True [(CHR ''A'', CHR ''Z''), (CHR ''0'', CHR ''9''), (CHR ''.'', CHR ''.''),
                  (CHR ''-'', CHR ''-'')] c = in_class False cls_host c"
  by (auto simp: in_class_def in_ranges_def cls_host_def less_eq_char_def
      of_char_lower of_char_upper)

lemma cls_icase_local:
  "in_class True [(CHR ''A'', CHR ''Z''), (CHR ''0'', CHR ''9''), (CHR ''.'', CHR ''.''),
                  (CHR ''_'', CHR ''_''), (CHR ''%'', CHR ''%''), (CHR ''+'', CHR ''+''),
                  (CHR ''-'', CHR ''-'')] c = in_class False cls_local c"
  by (auto simp: in_class_def in_ranges_def cls_local_def less_eq_char_def
      of_char_lower of_char_upper)

lemma same_char_at: "same_char True CHR ''@'' c = same_char False CHR ''@'' c"
  unfolding same_char_def lower_eq_iff of_char_lower char_eq_iff [of "CHR ''@''" c]
  by (simp; arith)

lemma same_char_dot: "same_char True CHR ''.'' c = same_char False CHR ''.'' c"
  unfolding same_char_def lower_eq_iff of_char_lower char_eq_iff [of "CHR ''.''" c]
  by (simp; arith)

lemma rmatch_cls_alpha:
  "rmatch True (Cls [(CHR ''A'', CHR ''Z'')]) = rmatch False (Cls cls_alpha)"
  by (rule ext) (simp add: cls_icase_alpha split: list.splits)

lemma rmatch_cls_host:
  "rmatch True (Cls [(CHR ''A'', CHR ''Z''), (CHR ''0'', CHR ''9''), (CHR ''.'', CHR ''.''),
                     (CHR ''-'', CHR ''-'')]) = rmatch False (Cls cls_host)"
  by (rule ext) (simp add: cls_icase_host split: list.splits)

lemma rmatch_cls_local:
  "rmatch True (Cls [(CHR ''A'', CHR ''Z''), (CHR ''0'', CHR ''9''), (CHR ''.'', CHR ''.''),
                     (CHR ''_'', CHR ''_''), (CHR ''%'', CHR ''%''), (CHR ''+'', CHR ''+''),
                     (CHR ''-'', CHR ''-'')]) = rmatch False (Cls cls_local)"
  by (rule ext) (simp add: cls_icase_local split: list.splits)

lemma rmatch_str_at: "rmatch True (Str ''@'') = rmatch False (Str ''@'')"
proof (rule ext)
  fix s :: mstate
  obtain p r where s: "s = (p, r)" by (cases s)
  show "rmatch True (Str ''@'') s = rmatch False (Str ''@'') s"
    unfolding s by (cases r) (simp_all add: same_char_at)
qed

lemma rmatch_str_dot: "rmatch True (Str ''.'') = rmatch False (Str ''.'')"
proof (rule ext)
  fix s :: mstate
  obtain p r where s: "s = (p, r)" by (cases s)
  show "rmatch True (Str ''.'') s = rmatch False (Str ''.'') s"
    unfolding s by (cases r) (simp_all add: same_char_dot)
qed

lemma rmatch_bnd: "rmatch True Bnd = rmatch False Bnd"
  by (rule ext) simp

lemma rmatch_seq:
  "rmatch True a = rmatch False a' \<Longrightarrow> rmatch True b = rmatch False b'
   \<Longrightarrow> rmatch True (Seq a b) = rmatch False (Seq a' b')"
  by (rule ext) simp

lemma rmatch_star:
  "rmatch True a = rmatch False a' \<Longrightarrow> rmatch True (Star a) = rmatch False (Star a')"
  by (rule ext) simp

lemma rmatch_plus:
  "rmatch True a = rmatch False a' \<Longrightarrow> rmatch True (Plus a) = rmatch False (Plus a')"
  unfolding Plus_def by (intro rmatch_seq rmatch_star)

lemma rmatch_atleast2:
  "rmatch True a = rmatch False a' \<Longrightarrow> rmatch True (AtLeast2 a) = rmatch False (AtLeast2 a')"
  unfolding AtLeast2_def by (intro rmatch_seq rmatch_star)

lemma rmatch_search_scrape: "rmatch True EMAIL_RE_search = rmatch False EMAIL_RE_scrape"
  unfolding EMAIL_RE_search_def EMAIL_RE_scrape_def seqs.simps
  by (intro rmatch_seq rmatch_plus rmatch_atleast2 rmatch_bnd rmatch_cls_local rmatch_cls_host
      rmatch_cls_alpha rmatch_str_at rmatch_str_dot)

lemma scan_search_scrape:
  "scan_matches True EMAIL_RE_search prev k page = scan_matches False EMAIL_RE_scrape prev k page"
  by (induction page arbitrary: prev k)
     (simp_all add: rmatch_search_scrape Let_def split: list.splits)

lemma findall_search_scrape:
  "re_findall True EMAIL_RE_search text = re_findall False EMAIL_RE_scrape text"
  by (simp add: re_findall_def scan_search_scrape)

text \<open>
  C7, as the code has it: the extractor of the search path returns the raw matches of
  its pattern as a set; it neither lower-cases them nor discards placeholder
  addresses. Its pattern matches the same texts as the pattern of
  \<^verbatim>\<open>sysiphe_scrape_emails_from_sites.py\<close>, so the addresses that script's harvester
  returns are the lower-cased search matches that contain none of its markers.
\<close>

theorem search_extractor_raw_matches:
  assumes "valid_order ord"
  shows "set (extract_emails_from_text text) = set (re_findall True EMAIL_RE_search text) \<and>
         distinct (extract_emails_from_text text) \<and>
         re_findall True EMAIL_RE_search text = re_findall False EMAIL_RE_scrape text \<and>
         set (extract_emails_scrape ord text) =
           {e \<in> py_lower ` set (extract_emails_from_text text).
              \<forall>bad \<in> set BAD_EMAIL_HINTS_scrape. \<not> sublist bad e}"
proof -
  have a: "set (extract_emails_from_text text) = set (re_findall True EMAIL_RE_search text)"
    by (simp add: extract_emails_from_text_def set_py_set)
  have b: "distinct (extract_emails_from_text text)"
    by (simp add: extract_emails_from_text_def distinct_py_set)
  have s: "set (ord (py_set (map py_lower (re_findall False EMAIL_RE_scrape text)))) =
             py_lower ` set (re_findall False EMAIL_RE_scrape text)"
    using valid_order_set [OF assms distinct_py_set] by (simp add: set_py_set)
  have c: "set (extract_emails_scrape ord text) =
           {e \<in> py_lower ` set (extract_emails_from_text text).
              \<forall>bad \<in> set BAD_EMAIL_HINTS_scrape. \<not> sublist bad e}"
    unfolding a findall_search_scrape extract_emails_scrape_def Let_def
    by (auto simp: s list_ex_iff)
  from a b c findall_search_scrape show ?thesis by blast
qed

theorem search_extractor_raw_matches_witness:
  "valid_order (\<lambda>xs. xs) \<and>
   re_findall True EMAIL_RE_search ''Info@Example.com zed@acme.com Bob@Acme.com'' =
     [''Info@Example.com'', ''zed@acme.com'', ''Bob@Acme.com''] \<and>
   set (extract_emails_from_text ''Info@Example.com zed@acme.com Bob@Acme.com'') =
     {''Info@Example.com'', ''zed@acme.com'', ''Bob@Acme.com''} \<and>
   set (extract_emails_scrape (\<lambda>xs. xs) ''Info@Example.com zed@acme.com Bob@Acme.com'') =
     {''bob@acme.com'', ''zed@acme.com''}"
proof -
  note t = search_extractor_raw_matches [OF valid_order_id,
      of "''Info@Example.com zed@acme.com Bob@Acme.com''"]
  from t have f: "re_findall True EMAIL_RE_search ''Info@Example.com zed@acme.com Bob@Acme.com'' =
     [''Info@Example.com'', ''zed@acme.com'', ''Bob@Acme.com'']"
    by (simp only: findall_page_scrape)
  from t have "set (extract_emails_from_text ''Info@Example.com zed@acme.com Bob@Acme.com'') =
     set (re_findall True EMAIL_RE_search ''Info@Example.com zed@acme.com Bob@Acme.com'')"
    by blast
  then have g: "set (extract_emails_from_text ''Info@Example.com zed@acme.com Bob@Acme.com'') =
     {''Info@Example.com'', ''zed@acme.com'', ''Bob@Acme.com''}"
    unfolding f by simp
  have h: "set (extract_emails_scrape (\<lambda>xs. xs) ''Info@Example.com zed@acme.com Bob@Acme.com'') =
     {''bob@acme.com'', ''zed@acme.com''}"
    by (simp add: extract_page_scrape)
  show ?thesis
    by (rule conjI [OF valid_order_id conjI [OF f conjI [OF g h]]])
qed

lemma findall_bob_search:
  "re_findall True EMAIL_RE_search ''Bob@Acme.com'' = [''Bob@Acme.com'']"
  by (simp add: EMAIL_RE_search_def char_defs re_defs)

lemma findall_bob_verify:
  "re_findall False EMAIL_RE_verify ''Bob@Acme.com'' = [''Bob@Acme.com'']"
  by (simp add: EMAIL_RE_verify_def char_defs re_defs)

lemma findall_example_search:
  "re_findall True EMAIL_RE_search ''info@example.com'' = [''info@example.com'']"
  by (simp add: EMAIL_RE_search_def char_defs re_defs)

lemma findall_example_verify:
  "re_findall False EMAIL_RE_verify ''info@example.com'' = [''info@example.com'']"
  by (simp add: EMAIL_RE_verify_def char_defs re_defs)

lemma lower_example: "py_lower ''info@example.com'' = ''info@example.com''"
  by (simp add: py_lower_def char_defs)

text \<open>
  The claim C7 fails: on the page text \<^verbatim>\<open>Bob@Acme.com\<close> the search extractor returns
  the address as written and the site harvester returns it lower-cased; on
  \<^verbatim>\<open>info@example.com\<close> the search extractor returns the placeholder address and the
  site harvester returns nothing.
\<close>

theorem search_extractor_counterexample:
  "extract_emails_from_text ''Bob@Acme.com'' = [''Bob@Acme.com''] \<and>
   extract_emails_verify (\<lambda>xs. xs) ''Bob@Acme.com'' = [''bob@acme.com''] \<and>
   set (extract_emails_from_text ''Bob@Acme.com'') \<noteq>
     set (extract_emails_verify (\<lambda>xs. xs) ''Bob@Acme.com'') \<and>
   extract_emails_from_text ''info@example.com'' = [''info@example.com''] \<and>
   extract_emails_verify (\<lambda>xs. xs) ''info@example.com'' = []"
proof -
  have a: "extract_emails_from_text ''Bob@Acme.com'' = [''Bob@Acme.com'']"
    by (simp add: extract_emails_from_text_def findall_bob_search py_set_def set_add_def)
  have b: "extract_emails_verify (\<lambda>xs. xs) ''Bob@Acme.com'' = [''bob@acme.com'']"
    by (simp add: extract_emails_verify_def findall_bob_verify lower_bob py_set_def set_add_def
        BAD_EMAIL_HINTS_verify_def sublist_code)
  have c: "extract_emails_from_text ''info@example.com'' = [''info@example.com'']"
    by (simp add: extract_emails_from_text_def findall_example_search py_set_def set_add_def)
  have d: "extract_emails_verify (\<lambda>xs. xs) ''info@example.com'' = []"
    by (simp add: extract_emails_verify_def findall_example_verify lower_example py_set_def
        set_add_def BAD_EMAIL_HINTS_verify_def sublist_code)
  have e: "set (extract_emails_from_text ''Bob@Acme.com'') \<noteq>
     set (extract_emails_verify (\<lambda>xs. xs) ''Bob@Acme.com'')"
    unfolding a b by simp
  show ?thesis
    by (rule conjI [OF a conjI [OF b conjI [OF e conjI [OF c d]]]])
qed

end
